theory Spec2Isabelle
  imports Main
begin

section \<open>The shell's line parser (mysh.c)\<close>

text \<open>
  The development follows \<^verbatim>\<open>src/mysh.c\<close>.  The parser
  \<^verbatim>\<open>parse_input_and_exec\<close> never looks at what its launchers return, so the
  model has two layers: the scanning pass, which records every launcher invocation in
  order (field \<open>launched\<close>), and the launchers themselves, which run against a model of
  the kernel's descriptor tables and files.
\<close>

subsection \<open>Constants (lines 21-32)\<close>

definition MAX_INPUT :: nat where
  "MAX_INPUT = 4096"

definition MAX_ARGS :: nat where
  "MAX_ARGS = 10"

definition COMMAND_SEPARATOR :: string where
  "COMMAND_SEPARATOR = '' ''"

definition EXEC_SUCCESS :: int where
  "EXEC_SUCCESS = 0"

definition EXEC_FAILURE :: int where
  "EXEC_FAILURE = - 1"

text \<open>The five values of \<^verbatim>\<open>redirect_mode\<close> (REG_CMD 0, INPUT 1, OUTPUT 2, OUTPUT_APPEND 3, PIPE 4).\<close>

datatype mode = REG_CMD | INPUT | OUTPUT | OUTPUT_APPEND | PIPE

subsection \<open>Arrays of C strings\<close>

text \<open>
  A \<^verbatim>\<open>char *a[MAX_ARGS + 1]\<close> is a list of slots, \<open>None\<close> for \<^verbatim>\<open>NULL\<close>.
  Every access goes through \<open>fetch\<close> or \<open>store\<close>, which answer \<open>None\<close> for an index
  outside the array: C would read or write foreign memory there.
\<close>

type_synonym arr = "string option list"

definition fetch :: "arr \<Rightarrow> nat \<Rightarrow> string option option" where
  "fetch a i = (if i < length a then Some (a ! i) else None)"

definition store :: "arr \<Rightarrow> nat \<Rightarrow> string option \<Rightarrow> arr option" where
  "store a i v = (if i < length a then Some (a[i := v]) else None)"

text \<open>The argument vector a callee reads from an array: the slots before the first \<^verbatim>\<open>NULL\<close>;
  \<open>None\<close> when the array holds no \<^verbatim>\<open>NULL\<close> (the callee would run off its end).\<close>

definition c_argv :: "arr \<Rightarrow> string list option" where
  "c_argv a = (if None \<in> set a then Some (map the (takeWhile (\<lambda>s. s \<noteq> None) a)) else None)"

subsection \<open>strtok\<close>

text \<open>
  \<^verbatim>\<open>strtok(input, dlim)\<close> followed by \<^verbatim>\<open>strtok(NULL, dlim)\<close> until it answers
  \<^verbatim>\<open>NULL\<close>: skip delimiter characters, take the characters up to the next delimiter,
  continue behind it.  The list holds the tokens in the order the calls return them.
\<close>

function strtok_all :: "string \<Rightarrow> string \<Rightarrow> string list" where
  "strtok_all input dlim =
     (let s = dropWhile (\<lambda>c. c \<in> set dlim) input in
      if s = [] then []
      else takeWhile (\<lambda>c. c \<notin> set dlim) s # strtok_all (dropWhile (\<lambda>c. c \<notin> set dlim) s) dlim)"
  by pat_completeness auto
termination
proof (relation "measure (\<lambda>(input, dlim). length input)")
  show "wf (measure (\<lambda>(input, dlim). length input))"
    by simp
next
  fix input dlim :: string and s :: string
  assume s: "s = dropWhile (\<lambda>c. c \<in> set dlim) input" and ne: "s \<noteq> []"
  from ne obtain x xs where xs: "s = x # xs"
    by (cases s) auto
  have "\<not> hd s \<in> set dlim"
    using hd_dropWhile [of "\<lambda>c. c \<in> set dlim" input] s ne by simp
  then have "x \<notin> set dlim"
    using xs by simp
  then have "length (dropWhile (\<lambda>c. c \<notin> set dlim) s) < length s"
    using xs length_dropWhile_le [of "\<lambda>c. c \<notin> set dlim" xs] by simp
  also have "length s \<le> length input"
    using s length_dropWhile_le by blast
  finally show "((dropWhile (\<lambda>c. c \<notin> set dlim) s, dlim), (input, dlim)) \<in> measure (\<lambda>(input, dlim). length input)"
    by simp
qed

declare strtok_all.simps [simp del]

subsection \<open>save\_command (lines 379-387)\<close>

function copy_loop :: "nat \<Rightarrow> nat \<Rightarrow> arr \<Rightarrow> arr \<Rightarrow> arr option" where
  "copy_loop i cmd_index dest command =
     (if i \<le> cmd_index then
        (case fetch command i of
           None \<Rightarrow> None
         | Some v \<Rightarrow>
             (case store dest i v of
                None \<Rightarrow> None
              | Some dest' \<Rightarrow> copy_loop (Suc i) cmd_index dest' command))
      else Some dest)"
  by pat_completeness auto
termination
  by (relation "measure (\<lambda>(i, cmd_index, dest, command). Suc cmd_index - i)") auto

declare copy_loop.simps [simp del]

definition save_command :: "arr \<Rightarrow> arr \<Rightarrow> nat \<Rightarrow> (arr \<times> arr) option" where
  "save_command dest command cmd_index =
     (case store command cmd_index None of
        None \<Rightarrow> None
      | Some c1 \<Rightarrow>
          (case copy_loop 0 cmd_index dest c1 of
             None \<Rightarrow> None
           | Some dest' \<Rightarrow>
               (case store c1 0 None of
                  None \<Rightarrow> None
                | Some c2 \<Rightarrow> Some (dest', c2))))"

subsection \<open>The kernel: descriptors, files, processes\<close>

text \<open>
  The system calls the shell makes are not code of the repository; they are modelled by
  what POSIX says of them, as far as the shell can observe it.
  \<^item> A descriptor table maps descriptor numbers to what they are open on: the terminal, an
    end of a numbered pipe, or a file with the flags of its \<^verbatim>\<open>open\<close>.  Every
    process has its own table; \<^verbatim>\<open>fork\<close> copies the parent's.
  \<^item> \<^verbatim>\<open>open\<close> and \<^verbatim>\<open>pipe\<close> take the lowest free numbers below \<open>fd_limit\<close>.
    \<^verbatim>\<open>open\<close> fails on a \<^verbatim>\<open>NULL\<close> path, without a free number, on a missing file
    without \<open>O_CREAT\<close>, and where the world's \<open>open_ok\<close> says so (permissions and
    the like); \<open>O_TRUNC\<close> empties the file, \<open>O_CREAT\<close> makes a missing file.
    \<^verbatim>\<open>close\<close> and \<^verbatim>\<open>dup2\<close> fail on a number that is not open, \<^verbatim>\<open>dup2\<close>
    also on a target at or above the limit.
    \<^verbatim>\<open>fork\<close> fails where the world's \<open>fork_ok\<close> says so.
  \<^item> A child runs to its end before the parent takes its next step, and a program that
    was started terminates: the model has no blocking on a full pipe.  A started program
    writes \<open>output_of w c\<close> to its standard output (kept when that is a file: appended
    under \<open>O_APPEND\<close>, written from offset 0 otherwise) and ends; what passes through
    pipes is not recorded.
  \<^item> \<^verbatim>\<open>wait(NULL)\<close> collects the oldest child that has ended (\<open>zombies\<close>).
  \<^item> \<open>trace\<close> lists the calls that succeeded and the messages, in order.  \<open>alive\<close>
    is false once the shell itself has called \<^verbatim>\<open>exit\<close>; \<open>ub\<close> is true once a
    launcher has read \<^verbatim>\<open>pipe_fds\<close> before any pipe was made, dereferenced a
    \<^verbatim>\<open>NULL\<close> command, handed \<^verbatim>\<open>execvp\<close> a \<^verbatim>\<open>NULL\<close> program, or read
    an argument array without terminator: undefined behaviour in C, where the model
    stops.
  \<^item> \<open>pipe_fds\<close> is the parser's local array of that name, \<open>None\<close> until a
    launcher has stored a pair in it.
\<close>

type_synonym fd = nat

definition STDIN_FILENO :: fd where
  "STDIN_FILENO = 0"

definition STDOUT_FILENO :: fd where
  "STDOUT_FILENO = 1"

definition EXIT_FAILURE :: int where
  "EXIT_FAILURE = 1"

datatype oflag = O_RDONLY | O_WRONLY | O_CREAT | O_TRUNC | O_APPEND

datatype desc = Tty | Pipe_read nat | Pipe_write nat | File string "oflag set"

datatype proc = Shell | Child nat

datatype event =
    Ev_pipe nat fd fd
  | Ev_fork nat
  | Ev_open proc string "oflag set" fd
  | Ev_dup2 proc desc fd
  | Ev_close proc fd desc
  | Ev_execvp nat "string option" "string list option" bool
  | Ev_end nat
  | Ev_exit proc int
  | Ev_wait "nat option"
  | Ev_perror proc string
  | Ev_printf proc string
  | Ev_stderr proc "string option"

record world =
  files :: "string \<Rightarrow> string option"
  fds :: "proc \<Rightarrow> fd \<Rightarrow> desc option"
  trace :: "event list"
  pipes :: nat
  forks :: nat
  zombies :: "nat list"
  alive :: bool
  ub :: bool
  pipe_fds :: "(fd \<times> fd) option"
  fd_limit :: nat
  fork_ok :: "nat \<Rightarrow> bool"
  open_ok :: "string \<Rightarrow> oflag set \<Rightarrow> bool"
  exec_ok :: "string \<Rightarrow> bool"
  output_of :: "nat \<Rightarrow> string"

definition emit :: "event \<Rightarrow> world \<Rightarrow> world" where
  "emit e w = w\<lparr>trace := trace w @ [e]\<rparr>"

definition lowest_free :: "(fd \<Rightarrow> desc option) \<Rightarrow> nat \<Rightarrow> fd option" where
  "lowest_free t limit = List.find (\<lambda>n. t n = None) [0..<limit]"

definition set_fd :: "proc \<Rightarrow> fd \<Rightarrow> desc option \<Rightarrow> world \<Rightarrow> world" where
  "set_fd p n d w = w\<lparr>fds := (fds w)(p := (fds w p)(n := d))\<rparr>"

definition sys_open :: "proc \<Rightarrow> string option \<Rightarrow> oflag set \<Rightarrow> world \<Rightarrow> fd option \<times> world" where
  "sys_open p path flags w =
     (case path of
        None \<Rightarrow> (None, w)
      | Some f \<Rightarrow>
          (case lowest_free (fds w p) (fd_limit w) of
             None \<Rightarrow> (None, w)
           | Some n \<Rightarrow>
               if \<not> open_ok w f flags \<or> (files w f = None \<and> O_CREAT \<notin> flags) then (None, w)
               else
                 (Some n,
                  emit (Ev_open p f flags n)
                    (set_fd p n (Some (File f flags))
                       (w\<lparr>files := (files w)(f \<mapsto>
                            (if O_TRUNC \<in> flags then []
                             else (case files w f of None \<Rightarrow> [] | Some s \<Rightarrow> s)))\<rparr>)))))"

definition sys_close :: "proc \<Rightarrow> fd \<Rightarrow> world \<Rightarrow> bool \<times> world" where
  "sys_close p n w =
     (case fds w p n of
        None \<Rightarrow> (False, w)
      | Some d \<Rightarrow> (True, emit (Ev_close p n d) (set_fd p n None w)))"

definition sys_dup2 :: "proc \<Rightarrow> fd \<Rightarrow> fd \<Rightarrow> world \<Rightarrow> bool \<times> world" where
  "sys_dup2 p old new w =
     (case fds w p old of
        None \<Rightarrow> (False, w)
      | Some d \<Rightarrow>
          if new < fd_limit w then (True, emit (Ev_dup2 p d new) (set_fd p new (Some d) w))
          else (False, w))"

definition sys_pipe :: "world \<Rightarrow> (fd \<times> fd) option \<times> world" where
  "sys_pipe w =
     (case lowest_free (fds w Shell) (fd_limit w) of
        None \<Rightarrow> (None, w)
      | Some r \<Rightarrow>
          (case lowest_free ((fds w Shell)(r \<mapsto> Pipe_read (pipes w))) (fd_limit w) of
             None \<Rightarrow> (None, w)
           | Some wr \<Rightarrow>
               (Some (r, wr),
                emit (Ev_pipe (pipes w) r wr)
                  (set_fd Shell wr (Some (Pipe_write (pipes w)))
                     (set_fd Shell r (Some (Pipe_read (pipes w)))
                        (w\<lparr>pipes := Suc (pipes w)\<rparr>))))))"

definition sys_fork :: "world \<Rightarrow> nat option \<times> world" where
  "sys_fork w =
     (if fork_ok w (forks w) then
        (Some (forks w),
         emit (Ev_fork (forks w))
           (w\<lparr>forks := Suc (forks w), fds := (fds w)(Child (forks w) := fds w Shell)\<rparr>))
      else (None, w))"

definition sys_wait :: "world \<Rightarrow> world" where
  "sys_wait w =
     (case zombies w of
        [] \<Rightarrow> emit (Ev_wait None) w
      | c # cs \<Rightarrow> emit (Ev_wait (Some c)) (w\<lparr>zombies := cs\<rparr>))"

definition gone :: "proc \<Rightarrow> world \<Rightarrow> world" where
  "gone p w =
     (case p of
        Shell \<Rightarrow> w\<lparr>fds := (fds w)(Shell := (\<lambda>n. None)), alive := False\<rparr>
      | Child c \<Rightarrow> w\<lparr>fds := (fds w)(Child c := (\<lambda>n. None)), zombies := zombies w @ [c]\<rparr>)"

definition sys_exit :: "proc \<Rightarrow> int \<Rightarrow> world \<Rightarrow> world" where
  "sys_exit p status w = gone p (emit (Ev_exit p status) w)"

definition perror :: "proc \<Rightarrow> string \<Rightarrow> world \<Rightarrow> world" where
  "perror p s w = emit (Ev_perror p s) w"

definition write_data :: "oflag set \<Rightarrow> string \<Rightarrow> string \<Rightarrow> string" where
  "write_data flags old out =
     (if O_WRONLY \<notin> flags then old
      else if O_APPEND \<in> flags then old @ out
      else out @ drop (length out) old)"

definition run_program :: "nat \<Rightarrow> world \<Rightarrow> world" where
  "run_program c w =
     gone (Child c)
       (emit (Ev_end c)
          (case fds w (Child c) STDOUT_FILENO of
             Some (File f flags) \<Rightarrow>
               w\<lparr>files := (files w)(f \<mapsto>
                    write_data flags (case files w f of None \<Rightarrow> [] | Some s \<Rightarrow> s) (output_of w c))\<rparr>
           | _ \<Rightarrow> w))"

subsection \<open>Error checks (lines 85-120)\<close>

text \<open>
  The source's pattern \<^verbatim>\<open>if (call(...) < 0) perror_exit("call()"); rest\<close> is
  \<open>or_exit\<close> (and \<open>fd_or_exit\<close> for a call that returns a descriptor): the rest of the
  function is passed as a continuation and runs only when the call succeeded.
  \<open>Ev_stderr p program\<close> is the \<^verbatim>\<open>fprintf(stderr, "%s ", program)\<close> before the
  \<^verbatim>\<open>perror\<close> of a failed \<^verbatim>\<open>execvp\<close>.  A \<^verbatim>\<open>NULL\<close> program is not a
  failed \<^verbatim>\<open>execvp\<close>: the call and the \<^verbatim>\<open>fprintf\<close> behind it both read through
  the pointer.  \<open>slot0\<close> reads \<^verbatim>\<open>a[0]\<close> of an array a launcher was given.
\<close>

definition perror_exit :: "proc \<Rightarrow> string \<Rightarrow> world \<Rightarrow> world" where
  "perror_exit p cmd w = sys_exit p EXIT_FAILURE (perror p cmd w)"

definition or_exit :: "proc \<Rightarrow> string \<Rightarrow> bool \<times> world \<Rightarrow> (world \<Rightarrow> world) \<Rightarrow> world" where
  "or_exit p cmd r k = (if fst r then k (snd r) else perror_exit p cmd (snd r))"

definition fd_or_exit :: "proc \<Rightarrow> string \<Rightarrow> fd option \<times> world \<Rightarrow> (fd \<Rightarrow> world \<Rightarrow> world) \<Rightarrow> world" where
  "fd_or_exit p cmd r k = (case fst r of Some n \<Rightarrow> k n (snd r) | None \<Rightarrow> perror_exit p cmd (snd r))"

definition execvp_and_handle_error :: "nat \<Rightarrow> string option \<Rightarrow> arr \<Rightarrow> world \<Rightarrow> world" where
  "execvp_and_handle_error c program argv w =
     (case program of
        None \<Rightarrow> w\<lparr>ub := True\<rparr>
      | Some p \<Rightarrow>
          if c_argv argv = None then w\<lparr>ub := True\<rparr>
          else if exec_ok w p then
            run_program c (emit (Ev_execvp c program (c_argv argv) True) w)
          else
            perror_exit (Child c) ''execvp()''
              (emit (Ev_stderr (Child c) program) (emit (Ev_execvp c program (c_argv argv) False) w)))"

definition close_pipes :: "proc \<Rightarrow> fd \<times> fd \<Rightarrow> world \<Rightarrow> (world \<Rightarrow> world) \<Rightarrow> world" where
  "close_pipes p pair w k =
     or_exit p ''close()'' (sys_close p (fst pair) w) (\<lambda>w1.
     or_exit p ''close()'' (sys_close p (snd pair) w1) k)"

definition slot0 :: "arr \<Rightarrow> string option" where
  "slot0 a = (case fetch a 0 of None \<Rightarrow> None | Some v \<Rightarrow> v)"

subsection \<open>exec\_command (lines 399-445)\<close>

definition exec_command_child :: "nat \<Rightarrow> mode \<Rightarrow> arr \<Rightarrow> fd \<Rightarrow> world \<Rightarrow> world" where
  "exec_command_child c mode command io_file_fd w =
     (if mode \<noteq> REG_CMD then
        (if mode = INPUT \<or> mode = OUTPUT \<or> mode = OUTPUT_APPEND then
           or_exit (Child c) ''dup2()''
             (sys_dup2 (Child c) io_file_fd (if mode = INPUT then STDIN_FILENO else STDOUT_FILENO) w) (\<lambda>w1.
           or_exit (Child c) ''close()'' (sys_close (Child c) io_file_fd w1) (\<lambda>w2.
           execvp_and_handle_error c (slot0 command) command w2))
         else sys_exit (Child c) EXIT_FAILURE (emit (Ev_printf (Child c) ''Unsupported mode.\<newline>'') w))
      else execvp_and_handle_error c (slot0 command) command w)"

definition exec_command :: "mode \<Rightarrow> arr \<Rightarrow> fd \<Rightarrow> world \<Rightarrow> world" where
  "exec_command mode command io_file_fd w =
     (case sys_fork w of
        (None, w1) \<Rightarrow> perror Shell ''fork()'' w1
      | (Some c, w1) \<Rightarrow> sys_wait (exec_command_child c mode command io_file_fd w1))"

subsection \<open>redirect\_io (lines 455-491)\<close>

definition redirect_io :: "mode \<Rightarrow> arr option \<Rightarrow> string option \<Rightarrow> bool \<Rightarrow> world \<Rightarrow> world" where
  "redirect_io mode command io_file exec_redirection w =
     (if mode = INPUT \<and> \<not> exec_redirection then w
      else
        (case sys_open Shell io_file
                (if mode = INPUT then {O_RDONLY}
                 else if mode = OUTPUT then {O_WRONLY, O_CREAT} \<union> {O_TRUNC}
                 else if mode = OUTPUT_APPEND then {O_WRONLY, O_CREAT} \<union> {O_APPEND}
                 else {O_WRONLY, O_CREAT}) w of
           (None, w1) \<Rightarrow> perror Shell ''open()'' w1
         | (Some io_file_fd, w1) \<Rightarrow>
             (case (if exec_redirection then
                      (case command of
                         None \<Rightarrow> w1\<lparr>ub := True\<rparr>
                       | Some argv \<Rightarrow> exec_command mode argv io_file_fd w1)
                    else w1) of w2 \<Rightarrow>
                (case sys_close Shell io_file_fd w2 of
                   (False, w3) \<Rightarrow> perror Shell ''close()'' w3
                 | (True, w3) \<Rightarrow> w3))))"

subsection \<open>exec\_redir\_bothio (lines 501-547)\<close>

definition exec_redir_bothio_child ::
  "nat \<Rightarrow> mode \<Rightarrow> arr \<Rightarrow> string option \<Rightarrow> string option \<Rightarrow> world \<Rightarrow> world" where
  "exec_redir_bothio_child c output_mode command input_file output_file w =
     fd_or_exit (Child c) ''open()'' (sys_open (Child c) input_file {O_RDONLY} w) (\<lambda>input_fd w1.
     fd_or_exit (Child c) ''open()''
       (sys_open (Child c) output_file
          ({O_WRONLY, O_CREAT} \<union> (if output_mode = OUTPUT_APPEND then {O_APPEND} else {O_TRUNC})) w1)
       (\<lambda>output_fd w2.
     or_exit (Child c) ''dup2()'' (sys_dup2 (Child c) input_fd STDIN_FILENO w2) (\<lambda>w3.
     or_exit (Child c) ''dup2()'' (sys_dup2 (Child c) output_fd STDOUT_FILENO w3) (\<lambda>w4.
     or_exit (Child c) ''close()'' (sys_close (Child c) input_fd w4) (\<lambda>w5.
     or_exit (Child c) ''close()'' (sys_close (Child c) output_fd w5) (\<lambda>w6.
     execvp_and_handle_error c (slot0 command) command w6))))))"

definition exec_redir_bothio :: "mode \<Rightarrow> arr \<Rightarrow> string option \<Rightarrow> string option \<Rightarrow> world \<Rightarrow> world" where
  "exec_redir_bothio output_mode command input_file output_file w =
     (case sys_fork w of
        (None, w1) \<Rightarrow> perror Shell ''fork()'' w1
      | (Some c, w1) \<Rightarrow>
          sys_wait (exec_redir_bothio_child c output_mode command input_file output_file w1))"

subsection \<open>The pipe launchers (lines 551-744)\<close>

text \<open>
  \<^verbatim>\<open>input_pipe\<close> and \<^verbatim>\<open>input_pipe_redirect\<close> store the new pair in
  \<^verbatim>\<open>pipe_fds\<close> and leave it open in the parent; \<^verbatim>\<open>inter_pipe\<close> keeps the old
  pair in \<^verbatim>\<open>input_pipe_fds\<close>, stores a new one, and closes the old one in the parent
  behind the fork; \<^verbatim>\<open>output_pipe\<close> and \<^verbatim>\<open>output_pipe_redirect\<close> close the
  stored pair in the parent behind the fork.  Where the fork fails the parent closes
  nothing.  The \<^verbatim>\<open>close(output_fd)\<close> behind the \<^verbatim>\<open>execvp\<close> of
  \<^verbatim>\<open>output_pipe_redirect\<close> is never reached and has no counterpart here.
\<close>

definition input_pipe :: "arr \<Rightarrow> world \<Rightarrow> world" where
  "input_pipe pipe_cmd w =
     (case sys_pipe w of
        (None, w1) \<Rightarrow> perror_exit Shell ''pipe()'' w1
      | (Some p, w1) \<Rightarrow>
          (case sys_fork (w1\<lparr>pipe_fds := Some p\<rparr>) of
             (None, w2) \<Rightarrow> perror Shell ''fork()'' w2
           | (Some c, w2) \<Rightarrow>
               sys_wait
                 (or_exit (Child c) ''dup2()'' (sys_dup2 (Child c) (snd p) STDOUT_FILENO w2) (\<lambda>w3.
                  close_pipes (Child c) p w3 (\<lambda>w4.
                  execvp_and_handle_error c (slot0 pipe_cmd) pipe_cmd w4)))))"

definition inter_pipe :: "arr \<Rightarrow> world \<Rightarrow> world" where
  "inter_pipe pipe_cmd w =
     (case pipe_fds w of
        None \<Rightarrow> w\<lparr>ub := True\<rparr>
      | Some input_pipe_fds \<Rightarrow>
          (case sys_pipe w of
             (None, w1) \<Rightarrow> perror_exit Shell ''pipe()'' w1
           | (Some p, w1) \<Rightarrow>
               (case sys_fork (w1\<lparr>pipe_fds := Some p\<rparr>) of
                  (None, w2) \<Rightarrow> perror Shell ''fork()'' w2
                | (Some c, w2) \<Rightarrow>
                    close_pipes Shell input_pipe_fds
                      (or_exit (Child c) ''dup2()''
                         (sys_dup2 (Child c) (fst input_pipe_fds) STDIN_FILENO w2) (\<lambda>w3.
                       or_exit (Child c) ''dup2()'' (sys_dup2 (Child c) (snd p) STDOUT_FILENO w3) (\<lambda>w4.
                       close_pipes (Child c) input_pipe_fds w4 (\<lambda>w5.
                       close_pipes (Child c) p w5 (\<lambda>w6.
                       execvp_and_handle_error c (slot0 pipe_cmd) pipe_cmd w6)))))
                      sys_wait)))"

definition output_pipe :: "arr \<Rightarrow> world \<Rightarrow> world" where
  "output_pipe pipe_cmd w =
     (case pipe_fds w of
        None \<Rightarrow> w\<lparr>ub := True\<rparr>
      | Some p \<Rightarrow>
          (case sys_fork w of
             (None, w1) \<Rightarrow> perror Shell ''fork()'' w1
           | (Some c, w1) \<Rightarrow>
               close_pipes Shell p
                 (or_exit (Child c) ''dup2()'' (sys_dup2 (Child c) (fst p) STDIN_FILENO w1) (\<lambda>w2.
                  close_pipes (Child c) p w2 (\<lambda>w3.
                  execvp_and_handle_error c (slot0 pipe_cmd) pipe_cmd w3)))
                 sys_wait))"

definition input_pipe_redirect :: "arr \<Rightarrow> string option \<Rightarrow> world \<Rightarrow> world" where
  "input_pipe_redirect input_cmd input_file w =
     (case sys_pipe w of
        (None, w1) \<Rightarrow> perror_exit Shell ''pipe()'' w1
      | (Some p, w1) \<Rightarrow>
          (case sys_fork (w1\<lparr>pipe_fds := Some p\<rparr>) of
             (None, w2) \<Rightarrow> perror Shell ''fork()'' w2
           | (Some c, w2) \<Rightarrow>
               sys_wait
                 (fd_or_exit (Child c) ''open()'' (sys_open (Child c) input_file {O_RDONLY} w2) (\<lambda>input_fd w3.
                  or_exit (Child c) ''dup2()'' (sys_dup2 (Child c) input_fd STDIN_FILENO w3) (\<lambda>w4.
                  or_exit (Child c) ''dup2()'' (sys_dup2 (Child c) (snd p) STDOUT_FILENO w4) (\<lambda>w5.
                  close_pipes (Child c) p w5 (\<lambda>w6.
                  execvp_and_handle_error c (slot0 input_cmd) input_cmd w6)))))))"

definition output_pipe_redirect :: "mode \<Rightarrow> arr \<Rightarrow> string option \<Rightarrow> world \<Rightarrow> world" where
  "output_pipe_redirect output_mode output_cmd output_file w =
     (case pipe_fds w of
        None \<Rightarrow> w\<lparr>ub := True\<rparr>
      | Some p \<Rightarrow>
          (case sys_fork w of
             (None, w1) \<Rightarrow> perror Shell ''fork()'' w1
           | (Some c, w1) \<Rightarrow>
               close_pipes Shell p
                 (fd_or_exit (Child c) ''open()''
                    (sys_open (Child c) output_file
                       ({O_CREAT, O_WRONLY} \<union> (if output_mode = OUTPUT_APPEND then {O_APPEND} else {O_TRUNC})) w1)
                    (\<lambda>output_fd w2.
                  or_exit (Child c) ''dup2()'' (sys_dup2 (Child c) (fst p) STDIN_FILENO w2) (\<lambda>w3.
                  or_exit (Child c) ''dup2()'' (sys_dup2 (Child c) output_fd STDOUT_FILENO w3) (\<lambda>w4.
                  close_pipes (Child c) p w4 (\<lambda>w5.
                  execvp_and_handle_error c (slot0 output_cmd) output_cmd w5)))))
                 sys_wait))"

subsection \<open>Launcher invocations\<close>

text \<open>
  One constructor per function the parser calls, with the arguments of the call: arrays
  as they stand at the call, \<^verbatim>\<open>char *\<close> arguments as \<open>string option\<close>.  The
  \<^verbatim>\<open>pipe_fds\<close> argument of the pipe launchers is the parser's one local array and is
  left implicit.
\<close>

datatype call =
    Exec_command mode arr fd
  | Redirect_io mode "arr option" "string option" bool
  | Exec_redir_bothio mode arr "string option" "string option"
  | Input_pipe arr
  | Inter_pipe arr
  | Output_pipe arr
  | Input_pipe_redirect arr "string option"
  | Output_pipe_redirect mode arr "string option"

subsection \<open>The scanner's variables (lines 220-227)\<close>

record pstate =
  command :: arr
  redirect_cmd :: arr
  input_file :: "string option"
  output_before_pipe :: bool
  cmd_index :: nat
  redirect_mode :: mode
  launched :: "call list"

definition init_state :: pstate where
  "init_state =
     \<lparr> command = replicate (MAX_ARGS + 1) None,
       redirect_cmd = replicate (MAX_ARGS + 1) None,
       input_file = None,
       output_before_pipe = False,
       cmd_index = 0,
       redirect_mode = REG_CMD,
       launched = [] \<rparr>"

text \<open>How a pass over a line can stop early: a parse error with the text it prints, or an
  array access outside its array.\<close>

datatype fail = Parse_error string | Out_of_bounds

subsection \<open>One token (lines 245-333)\<close>

text \<open>The body of the scanning loop behind its two leading checks: the chain of
  \<^verbatim>\<open>strcmp\<close> tests on the current token.\<close>

definition step :: "pstate \<Rightarrow> string \<Rightarrow> fail + pstate" where
  "step st token =
     (if token = ''<'' then
        (if redirect_mode st \<noteq> REG_CMD then
           Inl (Parse_error ''Cannot perform redirection before input.\<newline>'')
         else
           (case save_command (redirect_cmd st) (command st) (cmd_index st) of
              None \<Rightarrow> Inl Out_of_bounds
            | Some (d, c) \<Rightarrow>
                Inr (st\<lparr>redirect_cmd := d, command := c, redirect_mode := INPUT, cmd_index := 0\<rparr>)))
      else if token = ''>'' \<or> token = ''>>'' then
        (let output_mode = (if token = ''>>'' then OUTPUT_APPEND else OUTPUT) in
         if redirect_mode st = INPUT then
           (case fetch (command st) 0 of
              None \<Rightarrow> Inl Out_of_bounds
            | Some None \<Rightarrow> Inl (Parse_error ''No file for input redirection.'')
            | Some (Some f) \<Rightarrow>
                Inr (st\<lparr>input_file := Some f, redirect_mode := output_mode, cmd_index := 0\<rparr>))
         else if redirect_mode st = OUTPUT \<or> redirect_mode st = OUTPUT_APPEND then
           (case fetch (command st) 0 of
              None \<Rightarrow> Inl Out_of_bounds
            | Some None \<Rightarrow> Inl (Parse_error ''No file for output redirection.'')
            | Some (Some f) \<Rightarrow>
                Inr (st\<lparr>launched := launched st @ [Redirect_io (redirect_mode st) None (Some f) False],
                        redirect_mode := output_mode, cmd_index := 0\<rparr>))
         else
           (case save_command (redirect_cmd st) (command st) (cmd_index st) of
              None \<Rightarrow> Inl Out_of_bounds
            | Some (d, c) \<Rightarrow>
                Inr (st\<lparr>output_before_pipe := (redirect_mode st = PIPE \<or> output_before_pipe st),
                        redirect_cmd := d, command := c,
                        redirect_mode := output_mode, cmd_index := 0\<rparr>)))
      else if token = ''|'' then
        (if redirect_mode st = OUTPUT \<or> redirect_mode st = OUTPUT_APPEND then
           Inl (Parse_error ''Cannot perform output operation before piping.'')
         else if redirect_mode st = PIPE then
           (case fetch (command st) 0 of
              None \<Rightarrow> Inl Out_of_bounds
            | Some None \<Rightarrow> Inl (Parse_error ''Missing program to pipe to.\<newline>'')
            | Some (Some p) \<Rightarrow>
                (case store (command st) (cmd_index st) None of
                   None \<Rightarrow> Inl Out_of_bounds
                 | Some c \<Rightarrow>
                     Inr (st\<lparr>command := c, launched := launched st @ [Inter_pipe c],
                             cmd_index := 0, redirect_mode := PIPE\<rparr>)))
         else if redirect_mode st = INPUT then
           (case fetch (command st) 0 of
              None \<Rightarrow> Inl Out_of_bounds
            | Some f \<Rightarrow>
                Inr (st\<lparr>launched := launched st @ [Input_pipe_redirect (redirect_cmd st) f],
                        cmd_index := 0, redirect_mode := PIPE\<rparr>))
         else
           (case store (command st) (cmd_index st) None of
              None \<Rightarrow> Inl Out_of_bounds
            | Some c \<Rightarrow>
                Inr (st\<lparr>command := c, launched := launched st @ [Input_pipe c],
                        cmd_index := 0, redirect_mode := PIPE\<rparr>)))
      else
        (case store (command st) (cmd_index st) (Some token) of
           None \<Rightarrow> Inl Out_of_bounds
         | Some c \<Rightarrow> Inr (st\<lparr>command := c, cmd_index := cmd_index st + 1\<rparr>)))"

subsection \<open>The scanning loop (lines 229-335)\<close>

text \<open>
  \<open>Broke st\<close>: the loop was left (by \<^verbatim>\<open>break\<close> at the end of the tokens, or by its
  bound \<^verbatim>\<open>i < MAX_INPUT\<close>) with the variables \<open>st\<close>.  \<open>Failed e cs\<close>: the loop
  returned early for \<open>e\<close>, after the launches \<open>cs\<close>.
\<close>

datatype scan_result = Broke pstate | Failed fail "call list"

fun scan_loop :: "nat \<Rightarrow> pstate \<Rightarrow> string list \<Rightarrow> scan_result" where
  "scan_loop i st [] =
     (if i < MAX_INPUT then
        (if cmd_index st \<ge> MAX_ARGS + 1 then Failed (Parse_error ''Too many args.\<newline>'') (launched st)
         else
           (case store (command st) (cmd_index st) None of
              None \<Rightarrow> Failed Out_of_bounds (launched st)
            | Some c \<Rightarrow> Broke (st\<lparr>command := c\<rparr>)))
      else Broke st)"
| "scan_loop i st (token # rest) =
     (if i < MAX_INPUT then
        (if cmd_index st \<ge> MAX_ARGS + 1 then Failed (Parse_error ''Too many args.\<newline>'') (launched st)
         else
           (case step st token of
              Inl e \<Rightarrow> Failed e (launched st)
            | Inr st' \<Rightarrow> scan_loop (Suc i) st' rest))
      else Broke st)"

subsection \<open>End of line (lines 337-371) and the whole function\<close>

text \<open>What a call of \<^verbatim>\<open>parse_input_and_exec\<close> comes to: the value it returns, what it
  printed, and the launchers it called, in order; or an access outside an array.\<close>

datatype parse_result = Returned int "string list" "call list" | Memory_fault

definition finish :: "pstate \<Rightarrow> parse_result" where
  "finish st =
     (if redirect_mode st = REG_CMD then
        Returned EXEC_SUCCESS [] (launched st @ [Exec_command REG_CMD (command st) 0])
      else
        (case fetch (command st) 0 of
           None \<Rightarrow> Memory_fault
         | Some None \<Rightarrow> Returned EXEC_FAILURE [''No file for I/O redirection.\<newline>''] (launched st)
         | Some (Some f) \<Rightarrow>
             (if redirect_mode st = INPUT then
                Returned EXEC_SUCCESS []
                  (launched st @ [Redirect_io INPUT (Some (redirect_cmd st)) (Some f) True])
              else if redirect_mode st = OUTPUT \<or> redirect_mode st = OUTPUT_APPEND then
                (if input_file st \<noteq> None then
                   Returned EXEC_SUCCESS []
                     (launched st @
                        [Exec_redir_bothio (redirect_mode st) (redirect_cmd st) (input_file st) (Some f)])
                 else if output_before_pipe st then
                   Returned EXEC_SUCCESS []
                     (launched st @ [Output_pipe_redirect (redirect_mode st) (redirect_cmd st) (Some f)])
                 else
                   Returned EXEC_SUCCESS []
                     (launched st @ [Redirect_io (redirect_mode st) (Some (redirect_cmd st)) (Some f) True]))
              else if redirect_mode st = PIPE then
                Returned EXEC_SUCCESS [] (launched st @ [Output_pipe (command st)])
              else Returned EXEC_SUCCESS [] (launched st))))"

definition parse_tokens :: "string list \<Rightarrow> parse_result" where
  "parse_tokens toks =
     (case scan_loop 0 init_state toks of
        Failed Out_of_bounds cs \<Rightarrow> Memory_fault
      | Failed (Parse_error msg) cs \<Rightarrow> Returned EXEC_FAILURE [msg] cs
      | Broke st \<Rightarrow> finish st)"

definition parse_input_and_exec :: "string \<Rightarrow> string \<Rightarrow> parse_result" where
  "parse_input_and_exec input dlim = parse_tokens (strtok_all input dlim)"

subsection \<open>Running a line\<close>

text \<open>
  The launcher calls of a line, run in order on a world; the run stops where the shell
  has exited.  What the parser prints comes last: it prints only on the path that returns
  early, behind every launch of the line.  \<open>boot\<close> is a shell right after its start:
  the three standard descriptors on a terminal, no file, every program found and
  printing \<^verbatim>\<open>out\<close>.
\<close>

fun run_call :: "call \<Rightarrow> world \<Rightarrow> world" where
  "run_call (Exec_command m cmd n) w = exec_command m cmd n w"
| "run_call (Redirect_io m cmd f e) w = redirect_io m cmd f e w"
| "run_call (Exec_redir_bothio m cmd i out) w = exec_redir_bothio m cmd i out w"
| "run_call (Input_pipe cmd) w = input_pipe cmd w"
| "run_call (Inter_pipe cmd) w = inter_pipe cmd w"
| "run_call (Output_pipe cmd) w = output_pipe cmd w"
| "run_call (Input_pipe_redirect cmd f) w = input_pipe_redirect cmd f w"
| "run_call (Output_pipe_redirect m cmd f) w = output_pipe_redirect m cmd f w"

fun run_calls :: "call list \<Rightarrow> world \<Rightarrow> world" where
  "run_calls [] w = w"
| "run_calls (c # cs) w = (if alive w \<and> \<not> ub w then run_calls cs (run_call c w) else w)"

fun printf_all :: "string list \<Rightarrow> world \<Rightarrow> world" where
  "printf_all [] w = w"
| "printf_all (m # ms) w = printf_all ms (emit (Ev_printf Shell m) w)"

definition run_line :: "string \<Rightarrow> world \<Rightarrow> world" where
  "run_line input w =
     (case parse_input_and_exec input COMMAND_SEPARATOR of
        Memory_fault \<Rightarrow> w\<lparr>ub := True\<rparr>
      | Returned r msgs cs \<Rightarrow>
          (case run_calls cs (w\<lparr>pipe_fds := None\<rparr>) of w' \<Rightarrow>
             if alive w' \<and> \<not> ub w' then printf_all msgs w' else w'))"

definition boot :: world where
  "boot =
     \<lparr> files = Map.empty,
       fds = (\<lambda>p. case p of Shell \<Rightarrow> [0 \<mapsto> Tty, 1 \<mapsto> Tty, 2 \<mapsto> Tty] | Child c \<Rightarrow> Map.empty),
       trace = [],
       pipes = 0,
       forks = 0,
       zombies = [],
       alive = True,
       ub = False,
       pipe_fds = None,
       fd_limit = 16,
       fork_ok = (\<lambda>n. True),
       open_ok = (\<lambda>f flags. True),
       exec_ok = (\<lambda>p. True),
       output_of = (\<lambda>c. ''out'') \<rparr>"


subsection \<open>Notions the properties are stated with\<close>

text \<open>
  The four operator tokens; \<open>reach st toks\<close>, the variables the loop holds after the
  iterations that consume \<open>toks\<close>, when none of them returned early (a scan position);
  the shape of the variables that every scan position has; and the tokens collected
  since the last operator.
\<close>

definition is_operator :: "string \<Rightarrow> bool" where
  "is_operator t = (t = ''<'' \<or> t = ''>'' \<or> t = ''>>'' \<or> t = ''|'')"

fun reach :: "pstate \<Rightarrow> string list \<Rightarrow> pstate option" where
  "reach st [] = Some st"
| "reach st (t # ts) =
     (if cmd_index st \<ge> MAX_ARGS + 1 then None
      else (case step st t of Inl e \<Rightarrow> None | Inr st' \<Rightarrow> reach st' ts))"

definition wf_state :: "pstate \<Rightarrow> bool" where
  "wf_state st =
     (length (command st) = MAX_ARGS + 1 \<and> length (redirect_cmd st) = MAX_ARGS + 1 \<and>
      cmd_index st \<le> MAX_ARGS + 1)"

definition last_segment :: "string list \<Rightarrow> string list" where
  "last_segment toks = rev (takeWhile (\<lambda>t. \<not> is_operator t) (rev toks))"

text \<open>
  The files a run has opened, each with the flags of its \<^verbatim>\<open>open\<close> call, in
  order; and the runs that have opened nothing outside a given set.
\<close>

fun opened :: "event \<Rightarrow> (string \<times> oflag set) list" where
  "opened (Ev_open p f flags n) = [(f, flags)]"
| "opened e = []"

definition opens :: "world \<Rightarrow> (string \<times> oflag set) list" where
  "opens w = concat (map opened (trace w))"

definition within :: "(string \<times> oflag set) set \<Rightarrow> world \<Rightarrow> bool" where
  "within S w = (set (opens w) \<subseteq> S)"

section \<open>Properties\<close>

subsection \<open>Evaluating a run\<close>

text \<open>
  Rules for running the launchers on a given world: a continuation is entered only once
  the call before it has produced its result.
\<close>

lemma or_exit_cong: "r = r' \<Longrightarrow> or_exit p c r k = or_exit p c r' k"
  by simp

lemma fd_or_exit_cong: "r = r' \<Longrightarrow> fd_or_exit p c r k = fd_or_exit p c r' k"
  by simp

lemma close_pipes_cong: "w = w' \<Longrightarrow> close_pipes p pr w k = close_pipes p pr w' k"
  by simp

lemma or_exit_eval:
  "or_exit p c (True, w) k = k w"
  "or_exit p c (False, w) k = perror_exit p c w"
  by (simp_all add: or_exit_def)

lemma fd_or_exit_eval:
  "fd_or_exit p c (Some n, w) k = k n w"
  "fd_or_exit p c (None, w) k = perror_exit p c w"
  by (simp_all add: fd_or_exit_def)

lemmas sys_defs =
  input_pipe_def inter_pipe_def output_pipe_def input_pipe_redirect_def output_pipe_redirect_def
  exec_command_def exec_command_child_def redirect_io_def exec_redir_bothio_def
  exec_redir_bothio_child_def close_pipes_def or_exit_eval fd_or_exit_eval perror_exit_def
  execvp_and_handle_error_def run_program_def write_data_def
  sys_open_def sys_close_def sys_dup2_def sys_pipe_def sys_fork_def sys_wait_def sys_exit_def
  gone_def perror_def emit_def set_fd_def

lemmas kernel_defs =
  sys_defs run_calls.simps run_call.simps printf_all.simps lowest_free_def slot0_def fetch_def
  c_argv_def STDIN_FILENO_def STDOUT_FILENO_def EXIT_FAILURE_def boot_def

lemma upt16: "[0..<16] = [0, 1, 2, 3, 4, 5, 6, 7, 8, 9, 10, 11, 12, 13, 14, 15]"
  by code_simp

subsection \<open>strtok\<close>

lemma strtok_all_length: "length (strtok_all input dlim) \<le> length input"
proof (induction input dlim rule: strtok_all.induct)
  case (1 input dlim)
  define s where "s = dropWhile (\<lambda>c. c \<in> set dlim) input"
  show ?case
  proof (cases "s = []")
    case True
    then show ?thesis
      by (simp add: strtok_all.simps [of input dlim] s_def)
  next
    case False
    have hd: "hd s \<notin> set dlim"
      using hd_dropWhile [of "\<lambda>c. c \<in> set dlim" input] False by (simp add: s_def)
    then have "takeWhile (\<lambda>c. c \<notin> set dlim) s \<noteq> []"
      using False by (cases s) auto
    then have "1 \<le> length (takeWhile (\<lambda>c. c \<notin> set dlim) s)"
      by (cases "takeWhile (\<lambda>c. c \<notin> set dlim) s") auto
    moreover have "length (takeWhile (\<lambda>c. c \<notin> set dlim) s) + length (dropWhile (\<lambda>c. c \<notin> set dlim) s) = length s"
      by (metis length_append takeWhile_dropWhile_id)
    moreover have "length s \<le> length input"
      by (simp add: s_def length_dropWhile_le)
    moreover have "length (strtok_all (dropWhile (\<lambda>c. c \<notin> set dlim) s) dlim) \<le> length (dropWhile (\<lambda>c. c \<notin> set dlim) s)"
      using "1.IH" [OF s_def False] .
    ultimately show ?thesis
      using False by (simp add: strtok_all.simps [of input dlim] s_def [symmetric] Let_def)
  qed
qed

subsection \<open>save\_command\<close>

lemma copy_loop_nth:
  "n < length dest \<Longrightarrow> n < length c \<Longrightarrow>
   \<exists>d. copy_loop i n dest c = Some d \<and> length d = length dest \<and>
       (\<forall>j < length dest. d ! j = (if i \<le> j \<and> j \<le> n then c ! j else dest ! j))"
proof (induction i n dest c rule: copy_loop.induct)
  case (1 i n dest c)
  show ?case
  proof (cases "i \<le> n")
    case False
    then show ?thesis
      by (auto simp: copy_loop.simps [of i n dest c])
  next
    case True
    with "1.prems" have f: "fetch c i = Some (c ! i)" and s: "store dest i (c ! i) = Some (dest[i := c ! i])"
      by (simp_all add: fetch_def store_def)
    from "1.IH" [OF True f s] "1.prems"
    obtain d where d: "copy_loop (Suc i) n (dest[i := c ! i]) c = Some d" "length d = length dest"
      "\<forall>j < length dest. d ! j = (if Suc i \<le> j \<and> j \<le> n then c ! j else dest[i := c ! i] ! j)"
      by auto
    have "copy_loop i n dest c = Some d"
      using True f s d(1) by (simp add: copy_loop.simps [of i n dest c])
    moreover have "\<forall>j < length dest. d ! j = (if i \<le> j \<and> j \<le> n then c ! j else dest ! j)"
    proof (intro allI impI)
      fix j assume j: "j < length dest"
      show "d ! j = (if i \<le> j \<and> j \<le> n then c ! j else dest ! j)"
      proof (cases "j = i")
        case True
        then show ?thesis
          using d(3) j \<open>i \<le> n\<close> by simp
      next
        case False
        then have "(Suc i \<le> j) = (i \<le> j)"
          by auto
        then show ?thesis
          using d(3) j False by simp
      qed
    qed
    ultimately show ?thesis
      using d(2) by blast
  qed
qed

lemma copy_loop_0:
  assumes "n < length dest" "n < length c"
  shows "copy_loop 0 n dest c = Some (take (Suc n) c @ drop (Suc n) dest)"
proof -
  from copy_loop_nth [OF assms, of 0]
  obtain d where d: "copy_loop 0 n dest c = Some d" "length d = length dest"
    "\<forall>j < length dest. d ! j = (if j \<le> n then c ! j else dest ! j)"
    by auto
  have "d = take (Suc n) c @ drop (Suc n) dest"
  proof (rule nth_equalityI)
    show "length d = length (take (Suc n) c @ drop (Suc n) dest)"
      using d(2) assms by simp
  next
    fix j assume j: "j < length d"
    have len: "length (take (Suc n) c) = Suc n"
      using assms by simp
    show "d ! j = (take (Suc n) c @ drop (Suc n) dest) ! j"
    proof (cases "j \<le> n")
      case True
      then show ?thesis
        using j d(2,3) len by (simp add: nth_append)
    next
      case False
      then have "(take (Suc n) c @ drop (Suc n) dest) ! j = drop (Suc n) dest ! (j - Suc n)"
        using len by (simp add: nth_append)
      also have "\<dots> = dest ! j"
        using False j d(2) by simp
      finally show ?thesis
        using False j d(2,3) by simp
    qed
  qed
  with d(1) show ?thesis by simp
qed

lemma save_command_eq:
  assumes "n < length dest" "n < length c"
  shows "save_command dest c n =
    Some (take (Suc n) (c[n := None]) @ drop (Suc n) dest, c[n := None, 0 := None])"
proof -
  have "0 < length c"
    using assms by auto
  then show ?thesis
    using assms by (simp add: save_command_def store_def copy_loop_0)
qed

subsection \<open>Well-formed scanner states\<close>

lemma wf_init: "wf_state init_state"
  by (simp add: wf_state_def init_state_def)

lemma save_command_wf:
  assumes "wf_state st" "cmd_index st \<le> MAX_ARGS"
  shows "\<exists>d c. save_command (redirect_cmd st) (command st) (cmd_index st) = Some (d, c) \<and>
           length d = MAX_ARGS + 1 \<and> length c = MAX_ARGS + 1 \<and> c ! 0 = None"
  using assms by (simp add: wf_state_def save_command_eq)

lemma step_wf:
  assumes "wf_state st" "cmd_index st \<le> MAX_ARGS"
  shows "step st t \<noteq> Inl Out_of_bounds" and "step st t = Inr st' \<Longrightarrow> wf_state st'"
proof -
  from save_command_wf [OF assms] obtain d c where
    sc: "save_command (redirect_cmd st) (command st) (cmd_index st) = Some (d, c)"
      "length d = MAX_ARGS + 1" "length c = MAX_ARGS + 1"
    by blast
  have f: "fetch (command st) 0 = Some (command st ! 0)"
    using assms by (simp add: fetch_def wf_state_def)
  have s: "\<And>v. store (command st) (cmd_index st) v = Some ((command st)[cmd_index st := v])"
    using assms by (simp add: store_def wf_state_def)
  show "step st t \<noteq> Inl Out_of_bounds"
    by (simp add: step_def sc f s Let_def split: option.split)
  show "step st t = Inr st' \<Longrightarrow> wf_state st'"
    using assms sc(2,3)
    by (auto simp: step_def sc(1) f s Let_def wf_state_def split: option.splits if_splits)
qed

lemma reach_wf: "wf_state st \<Longrightarrow> reach st toks = Some st' \<Longrightarrow> wf_state st'"
proof (induction toks arbitrary: st)
  case Nil
  then show ?case by simp
next
  case (Cons t ts)
  from Cons.prems(2) have le: "cmd_index st \<le> MAX_ARGS"
    by (simp split: if_splits)
  from Cons.prems(2) le obtain s1 where s1: "step st t = Inr s1" "reach s1 ts = Some st'"
    by (auto split: sum.splits if_splits)
  from step_wf(2) [OF Cons.prems(1) le s1(1)] Cons.IH s1(2) show ?case
    by blast
qed

lemma reach_append:
  "reach st (xs @ ys) = (case reach st xs of None \<Rightarrow> None | Some s \<Rightarrow> reach s ys)"
  by (induction xs arbitrary: st) (auto split: sum.splits)

lemma scan_loop_reach:
  "reach st pre = Some st' \<Longrightarrow> i + length pre \<le> MAX_INPUT \<Longrightarrow>
   scan_loop i st (pre @ rest) = scan_loop (i + length pre) st' rest"
proof (induction pre arbitrary: i st)
  case Nil
  then show ?case by simp
next
  case (Cons t ts)
  from Cons.prems(1) have le: "\<not> MAX_ARGS + 1 \<le> cmd_index st"
    by (simp split: if_splits)
  from Cons.prems(1) le obtain s1 where s1: "step st t = Inr s1" "reach s1 ts = Some st'"
    by (auto split: sum.splits if_splits)
  have "scan_loop i st ((t # ts) @ rest) = scan_loop (Suc i) s1 (ts @ rest)"
    using Cons.prems(2) le s1(1) by simp
  also have "\<dots> = scan_loop (Suc i + length ts) st' rest"
    using Cons.IH [OF s1(2)] Cons.prems(2) by simp
  finally show ?case by simp
qed

lemma scan_loop_unreached:
  "reach st pre = None \<Longrightarrow> wf_state st \<Longrightarrow> i + length pre \<le> MAX_INPUT \<Longrightarrow>
   \<exists>m cs. scan_loop i st (pre @ rest) = Failed (Parse_error m) cs"
proof (induction pre arbitrary: i st)
  case Nil
  then show ?case by simp
next
  case (Cons t ts)
  show ?case
  proof (cases "MAX_ARGS + 1 \<le> cmd_index st")
    case True
    then show ?thesis
      using Cons.prems(3) by simp
  next
    case False
    then have le: "cmd_index st \<le> MAX_ARGS" by simp
    show ?thesis
    proof (cases "step st t")
      case (Inl e)
      with step_wf(1) [OF Cons.prems(2) le, of t] obtain m where "e = Parse_error m"
        by (cases e) auto
      then show ?thesis
        using Inl False Cons.prems(3) by simp
    next
      case (Inr s1)
      then have "reach s1 ts = None"
        using Cons.prems(1) False by simp
      from Cons.IH [OF this step_wf(2) [OF Cons.prems(2) le Inr], of "Suc i"] Cons.prems(3)
      show ?thesis
        using Inr False by simp
    qed
  qed
qed

lemma scan_loop_end:
  assumes "wf_state st" "i < MAX_INPUT"
  shows "scan_loop i st [] =
    (if MAX_ARGS + 1 \<le> cmd_index st then Failed (Parse_error ''Too many args.\<newline>'') (launched st)
     else Broke (st\<lparr>command := (command st)[cmd_index st := None]\<rparr>))"
  using assms by (simp add: store_def wf_state_def)

lemma finish_no_fault: "wf_state st \<Longrightarrow> finish st \<noteq> Memory_fault"
  by (simp add: finish_def fetch_def wf_state_def split: option.split)

lemma scan_loop_no_fault:
  "wf_state st \<Longrightarrow> scan_loop i st toks \<noteq> Failed Out_of_bounds cs"
  "wf_state st \<Longrightarrow> scan_loop i st toks = Broke st' \<Longrightarrow> wf_state st'"
proof (induction toks arbitrary: i st)
  case Nil
  {
    case 1
    then show ?case
      by (simp add: store_def wf_state_def)
  next
    case 2
    then show ?case
      by (auto simp: store_def wf_state_def split: if_splits)
  }
next
  case (Cons t ts)
  {
    case 1
    show ?case
    proof (cases "i < MAX_INPUT \<and> cmd_index st \<le> MAX_ARGS")
      case True
      then show ?thesis
        using step_wf [OF 1, of t] Cons.IH(1) by (auto split: sum.splits)
    next
      case False
      then show ?thesis by auto
    qed
  next
    case 2
    show ?case
    proof (cases "i < MAX_INPUT \<and> cmd_index st \<le> MAX_ARGS")
      case True
      then show ?thesis
        using step_wf [OF 2(1), of t] Cons.IH(2) 2(2) by (auto split: sum.splits)
    next
      case False
      then show ?thesis using 2 by (auto split: if_splits)
    qed
  }
qed

lemma parse_tokens_reach:
  assumes "reach init_state pre = Some st" "length pre \<le> MAX_INPUT"
  shows "parse_tokens (pre @ rest) =
     (case scan_loop (length pre) st rest of
        Failed Out_of_bounds cs \<Rightarrow> Memory_fault
      | Failed (Parse_error msg) cs \<Rightarrow> Returned EXEC_FAILURE [msg] cs
      | Broke st' \<Rightarrow> finish st')"
  using scan_loop_reach [OF assms(1), of 0 rest] assms(2) by (simp add: parse_tokens_def)

lemma parse_tokens_no_fault: "parse_tokens toks \<noteq> Memory_fault"
proof (cases "scan_loop 0 init_state toks")
  case (Broke st)
  then show ?thesis
    using scan_loop_no_fault(2) [OF wf_init Broke] finish_no_fault by (simp add: parse_tokens_def)
next
  case (Failed e cs)
  then show ?thesis
    using scan_loop_no_fault(1) [OF wf_init, of 0 toks cs]
    by (cases e) (simp_all add: parse_tokens_def)
qed

subsection \<open>Array bounds\<close>

text \<open>
  Claim C10.  For every input line (and every delimiter string) the parsing pass never
  reads or writes \<^verbatim>\<open>command\<close> or \<^verbatim>\<open>redirect_cmd\<close> outside their
  \<open>MAX_ARGS + 1\<close> slots: the function never comes to \<open>Memory_fault\<close>, the result of
  an access with an index above \<open>MAX_ARGS\<close>.  At every scan position both arrays have
  \<open>MAX_ARGS + 1\<close> slots and \<open>cmd_index\<close> is at most \<open>MAX_ARGS + 1\<close>; when it is
  \<open>MAX_ARGS + 1\<close> the leading check ends the line before the next token is stored.
\<close>

theorem parsing_stays_in_bounds:
  "parse_input_and_exec input dlim \<noteq> Memory_fault \<and>
   (\<forall>pre st. reach init_state pre = Some st \<longrightarrow>
      length (command st) = MAX_ARGS + 1 \<and> length (redirect_cmd st) = MAX_ARGS + 1 \<and>
      cmd_index st \<le> MAX_ARGS + 1 \<and>
      (\<forall>t ts. cmd_index st = MAX_ARGS + 1 \<longrightarrow> reach st (t # ts) = None))"
proof (intro conjI allI impI)
  show "parse_input_and_exec input dlim \<noteq> Memory_fault"
    by (simp add: parse_input_and_exec_def parse_tokens_no_fault)
next
  fix pre st
  assume "reach init_state pre = Some st"
  from reach_wf [OF wf_init this]
  show "length (command st) = MAX_ARGS + 1" "length (redirect_cmd st) = MAX_ARGS + 1"
    "cmd_index st \<le> MAX_ARGS + 1"
    by (simp_all add: wf_state_def)
next
  fix st :: pstate and t ts
  assume "cmd_index st = MAX_ARGS + 1"
  then show "reach st (t # ts) = None"
    by simp
qed

theorem parsing_stays_in_bounds_witness:
  "parse_input_and_exec ''a b < c | d'' COMMAND_SEPARATOR \<noteq> Memory_fault \<and>
   (\<exists>st. reach init_state [''a'', ''b'', ''<'', ''c'', ''|''] = Some st \<and>
      length (command st) = MAX_ARGS + 1 \<and> length (redirect_cmd st) = MAX_ARGS + 1 \<and>
      cmd_index st \<le> MAX_ARGS + 1)"
proof -
  have "reach init_state [''a'', ''b'', ''<'', ''c'', ''|''] \<noteq> None"
    by code_simp
  then obtain st where "reach init_state [''a'', ''b'', ''<'', ''c'', ''|''] = Some st"
    by blast
  then show ?thesis
    using parsing_stays_in_bounds [of "''a b < c | d''" COMMAND_SEPARATOR] by blast
qed

subsection \<open>The pipe operator behind an output redirection\<close>

lemma step_pipe_error:
  "(step st ''|'' = Inl (Parse_error ''Cannot perform output operation before piping.'')) =
   (redirect_mode st = OUTPUT \<or> redirect_mode st = OUTPUT_APPEND)"
  by (auto simp: step_def split: option.splits)

lemma scan_loop_failing_step:
  assumes "i < MAX_INPUT"
  shows "scan_loop i st (t # rest) =
    (if MAX_ARGS + 1 \<le> cmd_index st then Failed (Parse_error ''Too many args.\<newline>'') (launched st)
     else (case step st t of Inl e \<Rightarrow> Failed e (launched st) | Inr st' \<Rightarrow> scan_loop (Suc i) st' rest))"
  using assms by simp

text \<open>
  Claim C5.  The handler of the token \<^verbatim>\<open>|\<close> answers with the parse error
  "Cannot perform output operation before piping." exactly when the mode is \<open>OUTPUT\<close>
  or \<open>OUTPUT_APPEND\<close>.  On a line whose scan reaches a \<^verbatim>\<open>|\<close> in such a mode
  the function returns \<open>EXEC_FAILURE\<close> with the launches made before that token and
  nothing more (the error text is the one above, or "Too many args." when the leading
  check of the loop fires first).
\<close>

theorem pipe_after_output_redirection:
  "((step st ''|'' = Inl (Parse_error ''Cannot perform output operation before piping.'')) =
      (redirect_mode st = OUTPUT \<or> redirect_mode st = OUTPUT_APPEND)) \<and>
   (reach init_state pre = Some st \<and> (redirect_mode st = OUTPUT \<or> redirect_mode st = OUTPUT_APPEND) \<and>
    length pre < MAX_INPUT \<longrightarrow>
      parse_tokens (pre @ ''|'' # rest) =
        Returned EXEC_FAILURE
          [if cmd_index st \<le> MAX_ARGS then ''Cannot perform output operation before piping.''
           else ''Too many args.\<newline>'']
          (launched st))"
proof (intro conjI impI)
  show "(step st ''|'' = Inl (Parse_error ''Cannot perform output operation before piping.'')) =
      (redirect_mode st = OUTPUT \<or> redirect_mode st = OUTPUT_APPEND)"
    by (rule step_pipe_error)
next
  assume a: "reach init_state pre = Some st \<and> (redirect_mode st = OUTPUT \<or> redirect_mode st = OUTPUT_APPEND) \<and>
    length pre < MAX_INPUT"
  then have s: "step st ''|'' = Inl (Parse_error ''Cannot perform output operation before piping.'')"
    using step_pipe_error by blast
  have "parse_tokens (pre @ ''|'' # rest) =
     (case scan_loop (length pre) st (''|'' # rest) of
        Failed Out_of_bounds cs \<Rightarrow> Memory_fault
      | Failed (Parse_error msg) cs \<Rightarrow> Returned EXEC_FAILURE [msg] cs
      | Broke st' \<Rightarrow> finish st')"
    using a parse_tokens_reach [of pre st "''|'' # rest"] by simp
  then show "parse_tokens (pre @ ''|'' # rest) =
        Returned EXEC_FAILURE
          [if cmd_index st \<le> MAX_ARGS then ''Cannot perform output operation before piping.''
           else ''Too many args.\<newline>'']
          (launched st)"
    using a s by (simp add: scan_loop_failing_step del: scan_loop.simps)
qed

theorem pipe_after_output_redirection_witness:
  "parse_tokens ([''a'', ''>'', ''f''] @ ''|'' # [''b'']) =
     Returned EXEC_FAILURE [''Cannot perform output operation before piping.''] []"
proof -
  have r: "reach init_state [''a'', ''>'', ''f''] \<noteq> None"
    by code_simp
  then obtain st where st: "reach init_state [''a'', ''>'', ''f''] = Some st"
    by blast
  have m: "redirect_mode (the (reach init_state [''a'', ''>'', ''f''])) = OUTPUT"
    "cmd_index (the (reach init_state [''a'', ''>'', ''f''])) = 1"
    "launched (the (reach init_state [''a'', ''>'', ''f''])) = []"
    by code_simp+
  have l: "length [''a'', ''>'', ''f''] < MAX_INPUT"
    by (simp add: MAX_INPUT_def)
  show ?thesis
    using pipe_after_output_redirection [of st "[''a'', ''>'', ''f'']" "[''b'']"] st m l
    by (simp add: MAX_ARGS_def)
qed

subsection \<open>The input operator\<close>

lemma step_input_error:
  "(step st ''<'' = Inl (Parse_error ''Cannot perform redirection before input.\<newline>'')) =
   (redirect_mode st \<noteq> REG_CMD)"
  by (auto simp: step_def split: option.splits)

lemma step_leaves_REG_CMD:
  assumes "step st t = Inr st'"
  shows "redirect_mode st \<noteq> REG_CMD \<Longrightarrow> redirect_mode st' \<noteq> REG_CMD"
    and "t = ''<'' \<Longrightarrow> redirect_mode st = REG_CMD \<and> redirect_mode st' \<noteq> REG_CMD"
  using assms by (auto simp: step_def Let_def split: option.splits if_splits)

lemma reach_input_once:
  "reach st toks = Some st' \<Longrightarrow>
   (redirect_mode st \<noteq> REG_CMD \<longrightarrow> count_list toks ''<'' = 0 \<and> redirect_mode st' \<noteq> REG_CMD) \<and>
   count_list toks ''<'' \<le> 1"
proof (induction toks arbitrary: st)
  case Nil
  then show ?case by simp
next
  case (Cons t ts)
  from Cons.prems obtain s1 where s1: "step st t = Inr s1" "reach s1 ts = Some st'"
    by (auto split: sum.splits if_splits)
  note ih = Cons.IH [OF s1(2)]
  show ?case
  proof (cases "t = ''<''")
    case True
    with step_leaves_REG_CMD(2) [OF s1(1)] ih show ?thesis
      by simp
  next
    case False
    with step_leaves_REG_CMD(1) [OF s1(1)] ih show ?thesis
      by auto
  qed
qed

lemma parse_success_reach:
  assumes "length toks < MAX_INPUT" "parse_tokens toks = Returned EXEC_SUCCESS msgs cs"
  shows "\<exists>st. reach init_state toks = Some st"
proof (rule ccontr)
  assume "\<not> (\<exists>st. reach init_state toks = Some st)"
  then have "reach init_state toks = None"
    by simp
  from scan_loop_unreached [OF this wf_init, of 0 "[]"] assms(1)
  obtain m cs' where "scan_loop 0 init_state toks = Failed (Parse_error m) cs'"
    by auto
  then show False
    using assms(2) by (simp add: parse_tokens_def EXEC_SUCCESS_def EXEC_FAILURE_def)
qed

text \<open>
  Claim C6.  The handler of the token \<^verbatim>\<open><\<close> answers with the parse error "Cannot
  perform redirection before input." exactly when the mode is not \<open>REG_CMD\<close> (the spec's
  None).  On a line whose scan reaches a \<^verbatim>\<open><\<close> in such a mode the function returns
  \<open>EXEC_FAILURE\<close> with the launches made before that token and nothing more.  So the
  tokens behind any scan position, and the tokens of any line the function accepts, hold
  \<^verbatim>\<open><\<close> at most once.
\<close>

theorem input_operator_only_in_REG_CMD:
  "((step st ''<'' = Inl (Parse_error ''Cannot perform redirection before input.\<newline>'')) =
      (redirect_mode st \<noteq> REG_CMD)) \<and>
   (reach init_state pre = Some st \<and> redirect_mode st \<noteq> REG_CMD \<and> length pre < MAX_INPUT \<longrightarrow>
      parse_tokens (pre @ ''<'' # rest) =
        Returned EXEC_FAILURE
          [if cmd_index st \<le> MAX_ARGS then ''Cannot perform redirection before input.\<newline>''
           else ''Too many args.\<newline>'']
          (launched st)) \<and>
   (reach init_state toks = Some st' \<longrightarrow> count_list toks ''<'' \<le> 1) \<and>
   (length toks < MAX_INPUT \<and> parse_tokens toks = Returned EXEC_SUCCESS msgs cs \<longrightarrow>
      count_list toks ''<'' \<le> 1)"
proof (intro conjI impI)
  show "(step st ''<'' = Inl (Parse_error ''Cannot perform redirection before input.\<newline>'')) =
      (redirect_mode st \<noteq> REG_CMD)"
    by (rule step_input_error)
next
  assume a: "reach init_state pre = Some st \<and> redirect_mode st \<noteq> REG_CMD \<and> length pre < MAX_INPUT"
  then have s: "step st ''<'' = Inl (Parse_error ''Cannot perform redirection before input.\<newline>'')"
    using step_input_error by blast
  have "parse_tokens (pre @ ''<'' # rest) =
     (case scan_loop (length pre) st (''<'' # rest) of
        Failed Out_of_bounds cs \<Rightarrow> Memory_fault
      | Failed (Parse_error msg) cs \<Rightarrow> Returned EXEC_FAILURE [msg] cs
      | Broke st' \<Rightarrow> finish st')"
    using a parse_tokens_reach [of pre st "''<'' # rest"] by simp
  then show "parse_tokens (pre @ ''<'' # rest) =
        Returned EXEC_FAILURE
          [if cmd_index st \<le> MAX_ARGS then ''Cannot perform redirection before input.\<newline>''
           else ''Too many args.\<newline>'']
          (launched st)"
    using a s by (simp add: scan_loop_failing_step del: scan_loop.simps)
next
  assume "reach init_state toks = Some st'"
  then show "count_list toks ''<'' \<le> 1"
    using reach_input_once by blast
next
  assume "length toks < MAX_INPUT \<and> parse_tokens toks = Returned EXEC_SUCCESS msgs cs"
  then obtain s where "reach init_state toks = Some s"
    using parse_success_reach by blast
  then show "count_list toks ''<'' \<le> 1"
    using reach_input_once by blast
qed

theorem input_operator_only_in_REG_CMD_witness:
  "parse_tokens ([''a'', ''<'', ''f''] @ ''<'' # [''g'']) =
     Returned EXEC_FAILURE [''Cannot perform redirection before input.\<newline>''] [] \<and>
   count_list [''a'', ''<'', ''f''] ''<'' \<le> 1 \<and>
   parse_tokens [''a'', ''<'', ''f''] =
     Returned EXEC_SUCCESS []
       [Redirect_io INPUT (Some (Some ''a'' # replicate 10 None)) (Some ''f'') True]"
proof -
  have r: "reach init_state [''a'', ''<'', ''f''] \<noteq> None"
    by code_simp
  then obtain st where st: "reach init_state [''a'', ''<'', ''f''] = Some st"
    by blast
  have m: "redirect_mode (the (reach init_state [''a'', ''<'', ''f''])) = INPUT"
    "cmd_index (the (reach init_state [''a'', ''<'', ''f''])) = 1"
    "launched (the (reach init_state [''a'', ''<'', ''f''])) = []"
    by code_simp+
  have l: "length [''a'', ''<'', ''f''] < MAX_INPUT"
    by (simp add: MAX_INPUT_def)
  have p: "parse_tokens [''a'', ''<'', ''f''] =
     Returned EXEC_SUCCESS []
       [Redirect_io INPUT (Some (Some ''a'' # replicate 10 None)) (Some ''f'') True]"
    by code_simp
  show ?thesis
    using input_operator_only_in_REG_CMD
      [of st "[''a'', ''<'', ''f'']" "[''g'']" "[''a'', ''<'', ''f'']" st "[]"
          "[Redirect_io INPUT (Some (Some ''a'' # replicate 10 None)) (Some ''f'') True]"]
      st m l p
    by (simp add: MAX_ARGS_def)
qed

subsection \<open>Too many arguments\<close>

lemma step_plain:
  "\<not> is_operator t \<Longrightarrow>
   step st t =
     (case store (command st) (cmd_index st) (Some t) of
        None \<Rightarrow> Inl Out_of_bounds
      | Some c \<Rightarrow> Inr (st\<lparr>command := c, cmd_index := cmd_index st + 1\<rparr>))"
  by (simp add: step_def is_operator_def)

lemma step_operator_index:
  "is_operator t \<Longrightarrow> step st t = Inr st' \<Longrightarrow> cmd_index st' = 0"
  by (auto simp: step_def is_operator_def Let_def split: option.splits if_splits)

lemma reach_after_operator:
  assumes "reach st pre = Some st'" "pre \<noteq> []" "is_operator (last pre)"
  shows "cmd_index st' = 0"
proof -
  from assms(2) obtain xs x where pre: "pre = xs @ [x]"
    by (metis append_butlast_last_id)
  with assms(1) obtain s1 where s1: "reach st xs = Some s1" "reach s1 [x] = Some st'"
    by (auto simp: reach_append split: option.splits)
  from s1(2) have "step s1 x = Inr st'"
    by (auto split: if_splits sum.splits)
  with assms(3) pre show ?thesis
    using step_operator_index by simp
qed

lemma reach_plain:
  "wf_state st \<Longrightarrow> \<forall>t \<in> set ts. \<not> is_operator t \<Longrightarrow> cmd_index st + length ts \<le> MAX_ARGS + 1 \<Longrightarrow>
   reach st ts =
     Some (st\<lparr>command := take (cmd_index st) (command st) @ map Some ts @
                           drop (cmd_index st + length ts) (command st),
              cmd_index := cmd_index st + length ts\<rparr>)"
proof (induction ts arbitrary: st)
  case Nil
  then show ?case by simp
next
  case (Cons t ts)
  let ?n = "cmd_index st" and ?c = "command st"
  have n: "?n < length ?c" "?n \<le> MAX_ARGS"
    using Cons.prems by (simp_all add: wf_state_def)
  define s1 where "s1 = st\<lparr>command := ?c[?n := Some t], cmd_index := ?n + 1\<rparr>"
  have st1: "step st t = Inr s1"
    using Cons.prems(2) n by (simp add: step_plain store_def s1_def)
  have wf1: "wf_state s1"
    using Cons.prems(1,3) by (simp add: wf_state_def s1_def)
  have "reach s1 ts =
     Some (s1\<lparr>command := take (cmd_index s1) (command s1) @ map Some ts @
                           drop (cmd_index s1 + length ts) (command s1),
              cmd_index := cmd_index s1 + length ts\<rparr>)"
    using Cons.IH [OF wf1] Cons.prems(2,3) by (simp add: s1_def)
  moreover have "take (Suc ?n) (?c[?n := Some t]) = take ?n ?c @ [Some t]"
    using n(1) by (simp add: take_Suc_conv_app_nth)
  moreover have "drop (Suc (?n + length ts)) (?c[?n := Some t]) = drop (Suc (?n + length ts)) ?c"
    by simp
  ultimately show ?case
    using st1 n(2) by (simp add: s1_def)
qed

text \<open>
  Claim C7, as the code has it.  When the scan gets to a stage (the start of the line, or
  the token behind an operator) and that stage holds \<open>MAX_ARGS + 1\<close> plain tokens, the
  function prints "Too many args." and returns \<open>EXEC_FAILURE\<close>; the launchers it has
  called are those of the earlier operators and no other.  For a line of more than
  \<open>MAX_ARGS\<close> tokens and no operator (\<open>pre = []\<close>) that is no launcher at all.
\<close>

theorem too_many_args:
  assumes "strtok_all input dlim = pre @ seg @ rest" and "length input < MAX_INPUT"
    and "pre = [] \<or> is_operator (last pre)" and "reach init_state pre = Some st"
    and "length seg = MAX_ARGS + 1" and "\<forall>t \<in> set seg. \<not> is_operator t"
  shows "parse_input_and_exec input dlim =
    Returned EXEC_FAILURE [''Too many args.\<newline>''] (launched st) \<and>
    (pre = [] \<longrightarrow> launched st = [])"
proof -
  have wf: "wf_state st"
    using reach_wf [OF wf_init assms(4)] .
  have i0: "cmd_index st = 0"
  proof (cases "pre = []")
    case True
    with assms(4) show ?thesis
      by (auto simp: init_state_def)
  next
    case False
    with assms(3,4) show ?thesis
      using reach_after_operator by blast
  qed
  define st2 where "st2 = st\<lparr>command := take (cmd_index st) (command st) @ map Some seg @
                           drop (cmd_index st + length seg) (command st),
              cmd_index := cmd_index st + length seg\<rparr>"
  have "reach st seg = Some st2"
    unfolding st2_def using reach_plain [OF wf assms(6)] i0 assms(5) by simp
  then have r2: "reach init_state (pre @ seg) = Some st2"
    using assms(4) by (simp add: reach_append)
  have len: "length (pre @ seg @ rest) < MAX_INPUT"
    using strtok_all_length [of input dlim] assms(1,2) by simp
  then have l2: "length (pre @ seg) < MAX_INPUT"
    by simp
  have full: "cmd_index st2 = MAX_ARGS + 1" "launched st2 = launched st"
    using i0 assms(5) by (simp_all add: st2_def)
  have "scan_loop (length (pre @ seg)) st2 rest = Failed (Parse_error ''Too many args.\<newline>'') (launched st)"
    using l2 full by (cases rest) simp_all
  then have "parse_tokens ((pre @ seg) @ rest) = Returned EXEC_FAILURE [''Too many args.\<newline>''] (launched st)"
    using parse_tokens_reach [OF r2, of rest] l2 by simp
  moreover have "pre = [] \<longrightarrow> launched st = []"
    using assms(4) by (auto simp: init_state_def)
  ultimately show ?thesis
    using assms(1) by (simp add: parse_input_and_exec_def)
qed

theorem too_many_args_witness:
  "parse_input_and_exec ''a | b c d e f g h i j k l'' COMMAND_SEPARATOR =
     Returned EXEC_FAILURE [''Too many args.\<newline>''] [Input_pipe (Some ''a'' # replicate 10 None)]"
proof -
  let ?pre = "[''a'', ''|'']"
  let ?seg = "[''b'', ''c'', ''d'', ''e'', ''f'', ''g'', ''h'', ''i'', ''j'', ''k'', ''l'']"
  have tok: "strtok_all ''a | b c d e f g h i j k l'' COMMAND_SEPARATOR = ?pre @ ?seg @ []"
    by code_simp
  have len: "length ''a | b c d e f g h i j k l'' < MAX_INPUT"
    by (simp add: MAX_INPUT_def)
  have op: "?pre = [] \<or> is_operator (last ?pre)"
    by (simp add: is_operator_def)
  have "reach init_state ?pre \<noteq> None"
    by code_simp
  then obtain st where st: "reach init_state ?pre = Some st"
    by blast
  have l: "launched (the (reach init_state ?pre)) = [Input_pipe (Some ''a'' # replicate 10 None)]"
    by code_simp
  have seg: "length ?seg = MAX_ARGS + 1" "\<forall>t \<in> set ?seg. \<not> is_operator t"
    by (simp_all add: MAX_ARGS_def is_operator_def)
  show ?thesis
    using too_many_args [OF tok len op st seg] st l by simp
qed

text \<open>
  The claim as written fails twice.  A line can run over the argument limit in its second
  stage after its first stage has been launched: the line below prints "Too many args."
  with one child already forked.  And a line can hold more than \<open>MAX_ARGS + 1\<close> tokens
  without any stage running over: twelve tokens, accepted.
\<close>

theorem too_many_args_counterexample:
  "parse_input_and_exec ''a | b c d e f g h i j k l'' COMMAND_SEPARATOR =
     Returned EXEC_FAILURE [''Too many args.\<newline>''] [Input_pipe (Some ''a'' # replicate 10 None)] \<and>
   forks (run_line ''a | b c d e f g h i j k l'' boot) = 1 \<and>
   length (strtok_all ''a | b c d e f g h i j k'' COMMAND_SEPARATOR) = 12 \<and>
   parse_input_and_exec ''a | b c d e f g h i j k'' COMMAND_SEPARATOR =
     Returned EXEC_SUCCESS []
       [Input_pipe (Some ''a'' # replicate 10 None),
        Output_pipe [Some ''b'', Some ''c'', Some ''d'', Some ''e'', Some ''f'', Some ''g'',
                     Some ''h'', Some ''i'', Some ''j'', Some ''k'', None]]"
  by (intro conjI; code_simp)

subsection \<open>End of line\<close>

lemma last_segment_snoc:
  "last_segment (xs @ [x]) = (if is_operator x then [] else last_segment xs @ [x])"
  by (simp add: last_segment_def)

lemma reach_segment:
  "reach init_state toks = Some st \<Longrightarrow>
   cmd_index st = length (last_segment toks) \<and>
   take (cmd_index st) (command st) = map Some (last_segment toks)"
proof (induction toks arbitrary: st rule: rev_induct)
  case Nil
  then show ?case
    by (auto simp: init_state_def last_segment_def)
next
  case (snoc x xs)
  from snoc.prems obtain s1 where s1: "reach init_state xs = Some s1" "reach s1 [x] = Some st"
    by (auto simp: reach_append split: option.splits)
  from s1(2) have le: "cmd_index s1 \<le> MAX_ARGS" and stp: "step s1 x = Inr st"
    by (auto split: if_splits sum.splits)
  have wf1: "wf_state s1"
    using reach_wf [OF wf_init s1(1)] .
  note ih = snoc.IH [OF s1(1)]
  show ?case
  proof (cases "is_operator x")
    case True
    then show ?thesis
      using step_operator_index [OF True stp] by (simp add: last_segment_snoc)
  next
    case False
    have n: "cmd_index s1 < length (command s1)"
      using wf1 le by (simp add: wf_state_def)
    then have "st = s1\<lparr>command := (command s1)[cmd_index s1 := Some x], cmd_index := cmd_index s1 + 1\<rparr>"
      using stp False by (simp add: step_plain store_def)
    moreover have "take (Suc (cmd_index s1)) ((command s1)[cmd_index s1 := Some x]) =
        take (cmd_index s1) (command s1) @ [Some x]"
      using n by (simp add: take_Suc_conv_app_nth)
    ultimately show ?thesis
      using ih False by (auto simp: last_segment_snoc)
  qed
qed

lemma c_argv_terminated:
  assumes "n < length c" "take n c = map Some ts"
  shows "c_argv (c[n := None]) = Some ts"
    and "(c[n := None]) ! 0 = (if ts = [] then None else Some (hd ts))"
proof -
  have len: "length ts = n"
    using assms by (metis length_map length_take min.absorb2 less_imp_le_nat)
  have c: "c[n := None] = map Some ts @ None # drop (Suc n) c"
    using assms by (simp add: upd_conv_take_nth_drop)
  have "takeWhile (\<lambda>s. s \<noteq> None) (map Some ts @ None # drop (Suc n) c) = map Some ts"
    by (simp add: takeWhile_tail)
  then show "c_argv (c[n := None]) = Some ts"
    by (simp add: c_argv_def c comp_def)
  show "(c[n := None]) ! 0 = (if ts = [] then None else Some (hd ts))"
    by (cases ts) (simp_all add: c)
qed

lemma parse_success_state:
  assumes "length toks < MAX_INPUT" "parse_tokens toks = Returned EXEC_SUCCESS msgs cs"
  shows "\<exists>st. scan_loop 0 init_state toks = Broke st \<and> finish st = Returned EXEC_SUCCESS msgs cs \<and>
     wf_state st \<and> c_argv (command st) = Some (last_segment toks) \<and>
     command st ! 0 = (if last_segment toks = [] then None else Some (hd (last_segment toks)))"
proof -
  from parse_success_reach [OF assms] obtain s0 where s0: "reach init_state toks = Some s0"
    by blast
  have wf0: "wf_state s0"
    using reach_wf [OF wf_init s0] .
  have sl: "scan_loop 0 init_state toks = scan_loop (length toks) s0 []"
    using scan_loop_reach [OF s0, of 0 "[]"] assms(1) by simp
  have le: "cmd_index s0 \<le> MAX_ARGS"
  proof (rule ccontr)
    assume "\<not> cmd_index s0 \<le> MAX_ARGS"
    then have "scan_loop (length toks) s0 [] = Failed (Parse_error ''Too many args.\<newline>'') (launched s0)"
      using assms(1) by simp
    then show False
      using assms(2) sl by (simp add: parse_tokens_def EXEC_SUCCESS_def EXEC_FAILURE_def)
  qed
  define st where "st = s0\<lparr>command := (command s0)[cmd_index s0 := None]\<rparr>"
  have br: "scan_loop 0 init_state toks = Broke st"
    using sl scan_loop_end [OF wf0 assms(1)] le by (simp add: st_def)
  have n: "cmd_index s0 < length (command s0)"
    using wf0 le by (simp add: wf_state_def)
  from reach_segment [OF s0] have seg: "take (cmd_index s0) (command s0) = map Some (last_segment toks)"
    by blast
  have "wf_state st"
    using wf0 by (simp add: wf_state_def st_def)
  moreover have "finish st = Returned EXEC_SUCCESS msgs cs"
    using assms(2) br by (simp add: parse_tokens_def)
  ultimately show ?thesis
    using br c_argv_terminated [OF n seg] by (auto simp: st_def)
qed

text \<open>
  Claim C1.  When \<^verbatim>\<open>parse_input_and_exec\<close> returns \<open>EXEC_SUCCESS\<close> for a line, its
  scanning loop was left at the end of the tokens with variables \<open>st\<close>, and behind the
  launches of the loop the function made exactly one more call, chosen by the mode of
  \<open>st\<close>: \<open>REG_CMD\<close>: \<^verbatim>\<open>exec_command\<close> without redirection on the argument vector;
  \<open>INPUT\<close>: \<^verbatim>\<open>redirect_io\<close> running \<^verbatim>\<open>redirect_cmd\<close> with input from the
  collected token; an output mode: \<^verbatim>\<open>exec_redir_bothio\<close> when an input file was
  recorded, else \<^verbatim>\<open>output_pipe_redirect\<close> when output-before-pipe was recorded, else
  \<^verbatim>\<open>redirect_io\<close> running \<^verbatim>\<open>redirect_cmd\<close> with output to the collected
  token; \<open>PIPE\<close>: \<^verbatim>\<open>output_pipe\<close> on the argument vector.  The argument vector
  is the tokens behind the last operator, the collected token the first of them.
\<close>

theorem end_of_line_dispatch:
  assumes "parse_input_and_exec input dlim = Returned EXEC_SUCCESS msgs cs"
    and "length input < MAX_INPUT"
  shows "\<exists>st f. scan_loop 0 init_state (strtok_all input dlim) = Broke st \<and> msgs = [] \<and>
     c_argv (command st) = Some (last_segment (strtok_all input dlim)) \<and>
     (redirect_mode st \<noteq> REG_CMD \<longrightarrow>
        last_segment (strtok_all input dlim) \<noteq> [] \<and> f = hd (last_segment (strtok_all input dlim))) \<and>
     (redirect_mode st = REG_CMD \<longrightarrow>
        cs = launched st @ [Exec_command REG_CMD (command st) 0]) \<and>
     (redirect_mode st = INPUT \<longrightarrow>
        cs = launched st @ [Redirect_io INPUT (Some (redirect_cmd st)) (Some f) True]) \<and>
     ((redirect_mode st = OUTPUT \<or> redirect_mode st = OUTPUT_APPEND) \<and> input_file st \<noteq> None \<longrightarrow>
        cs = launched st @
          [Exec_redir_bothio (redirect_mode st) (redirect_cmd st) (input_file st) (Some f)]) \<and>
     ((redirect_mode st = OUTPUT \<or> redirect_mode st = OUTPUT_APPEND) \<and> input_file st = None \<and>
      output_before_pipe st \<longrightarrow>
        cs = launched st @ [Output_pipe_redirect (redirect_mode st) (redirect_cmd st) (Some f)]) \<and>
     ((redirect_mode st = OUTPUT \<or> redirect_mode st = OUTPUT_APPEND) \<and> input_file st = None \<and>
      \<not> output_before_pipe st \<longrightarrow>
        cs = launched st @ [Redirect_io (redirect_mode st) (Some (redirect_cmd st)) (Some f) True]) \<and>
     (redirect_mode st = PIPE \<longrightarrow> cs = launched st @ [Output_pipe (command st)])"
proof -
  let ?toks = "strtok_all input dlim"
  have len: "length ?toks < MAX_INPUT"
    using strtok_all_length [of input dlim] assms(2) by simp
  from parse_success_state [OF len] assms(1)
  obtain st where st: "scan_loop 0 init_state ?toks = Broke st"
    "finish st = Returned EXEC_SUCCESS msgs cs" "wf_state st"
    "c_argv (command st) = Some (last_segment ?toks)"
    "command st ! 0 = (if last_segment ?toks = [] then None else Some (hd (last_segment ?toks)))"
    by (auto simp: parse_input_and_exec_def)
  have f0: "fetch (command st) 0 = Some (command st ! 0)"
    using st(3) by (simp add: fetch_def wf_state_def)
  show ?thesis
  proof (intro exI [of _ st] exI [of _ "hd (last_segment ?toks)"] conjI impI)
    show "scan_loop 0 init_state ?toks = Broke st" by (rule st(1))
    show "c_argv (command st) = Some (last_segment ?toks)" by (rule st(4))
    show "msgs = []"
      using st(2) f0 by (auto simp: finish_def EXEC_SUCCESS_def EXEC_FAILURE_def split: if_splits option.splits)
    show "last_segment ?toks \<noteq> []" if "redirect_mode st \<noteq> REG_CMD"
      using st(2,5) f0 that
      by (auto simp: finish_def EXEC_SUCCESS_def EXEC_FAILURE_def split: if_splits option.splits)
    show "hd (last_segment ?toks) = hd (last_segment ?toks)" by simp
    show "cs = launched st @ [Exec_command REG_CMD (command st) 0]" if "redirect_mode st = REG_CMD"
      using st(2) that by (simp add: finish_def)
    show "cs = launched st @ [Redirect_io INPUT (Some (redirect_cmd st)) (Some (hd (last_segment ?toks))) True]"
      if "redirect_mode st = INPUT"
      using st(2,5) f0 that
      by (auto simp: finish_def EXEC_SUCCESS_def EXEC_FAILURE_def split: if_splits option.splits)
    show "cs = launched st @
          [Exec_redir_bothio (redirect_mode st) (redirect_cmd st) (input_file st) (Some (hd (last_segment ?toks)))]"
      if "(redirect_mode st = OUTPUT \<or> redirect_mode st = OUTPUT_APPEND) \<and> input_file st \<noteq> None"
      using st(2,5) f0 that
      by (auto simp: finish_def EXEC_SUCCESS_def EXEC_FAILURE_def split: if_splits option.splits)
    show "cs = launched st @ [Output_pipe_redirect (redirect_mode st) (redirect_cmd st) (Some (hd (last_segment ?toks)))]"
      if "(redirect_mode st = OUTPUT \<or> redirect_mode st = OUTPUT_APPEND) \<and> input_file st = None \<and>
      output_before_pipe st"
      using st(2,5) f0 that
      by (auto simp: finish_def EXEC_SUCCESS_def EXEC_FAILURE_def split: if_splits option.splits)
    show "cs = launched st @ [Redirect_io (redirect_mode st) (Some (redirect_cmd st)) (Some (hd (last_segment ?toks))) True]"
      if "(redirect_mode st = OUTPUT \<or> redirect_mode st = OUTPUT_APPEND) \<and> input_file st = None \<and>
      \<not> output_before_pipe st"
      using st(2,5) f0 that
      by (auto simp: finish_def EXEC_SUCCESS_def EXEC_FAILURE_def split: if_splits option.splits)
    show "cs = launched st @ [Output_pipe (command st)]" if "redirect_mode st = PIPE"
      using st(2,5) f0 that
      by (auto simp: finish_def EXEC_SUCCESS_def EXEC_FAILURE_def split: if_splits option.splits)
  qed
qed

theorem end_of_line_dispatch_witness:
  "\<exists>st. scan_loop 0 init_state (strtok_all ''a | b > f'' COMMAND_SEPARATOR) = Broke st \<and>
     c_argv (command st) = Some [''f''] \<and> redirect_mode st = OUTPUT \<and> input_file st = None \<and>
     output_before_pipe st \<and>
     [Input_pipe (Some ''a'' # replicate 10 None),
      Output_pipe_redirect OUTPUT (Some ''b'' # replicate 10 None) (Some ''f'')] =
       launched st @ [Output_pipe_redirect (redirect_mode st) (redirect_cmd st) (Some ''f'')]"
proof -
  let ?cs = "[Input_pipe (Some ''a'' # replicate 10 None),
      Output_pipe_redirect OUTPUT (Some ''b'' # replicate 10 None) (Some ''f'')]"
  have p: "parse_input_and_exec ''a | b > f'' COMMAND_SEPARATOR = Returned EXEC_SUCCESS [] ?cs"
    by code_simp
  have l: "length ''a | b > f'' < MAX_INPUT"
    by (simp add: MAX_INPUT_def)
  have seg: "last_segment (strtok_all ''a | b > f'' COMMAND_SEPARATOR) = [''f'']"
    by code_simp
  from end_of_line_dispatch [OF p l] obtain st f where
    st: "scan_loop 0 init_state (strtok_all ''a | b > f'' COMMAND_SEPARATOR) = Broke st"
      "c_argv (command st) = Some (last_segment (strtok_all ''a | b > f'' COMMAND_SEPARATOR))"
      "redirect_mode st \<noteq> REG_CMD \<longrightarrow> f = hd (last_segment (strtok_all ''a | b > f'' COMMAND_SEPARATOR))"
      "(redirect_mode st = OUTPUT \<or> redirect_mode st = OUTPUT_APPEND) \<and> input_file st = None \<and>
        output_before_pipe st \<longrightarrow>
        ?cs = launched st @ [Output_pipe_redirect (redirect_mode st) (redirect_cmd st) (Some f)]"
    by blast
  have b: "scan_loop 0 init_state (strtok_all ''a | b > f'' COMMAND_SEPARATOR) \<noteq> Failed e cs" for e cs
    using st(1) by simp
  have m: "(case scan_loop 0 init_state (strtok_all ''a | b > f'' COMMAND_SEPARATOR) of
              Broke s \<Rightarrow> redirect_mode s = OUTPUT \<and> input_file s = None \<and> output_before_pipe s
            | Failed e cs \<Rightarrow> False)"
    by code_simp
  then have "redirect_mode st = OUTPUT \<and> input_file st = None \<and> output_before_pipe st"
    using st(1) by simp
  then show ?thesis
    using st seg by auto
qed

subsection \<open>Missing operands\<close>



lemma parse_tokens_unreached:
  assumes "reach init_state toks = None" "length toks < MAX_INPUT"
  shows "\<exists>m cs. parse_tokens toks = Returned EXEC_FAILURE [m] cs"
proof -
  from scan_loop_unreached [OF assms(1) wf_init, of 0 "[]"] assms(2)
  obtain m cs where "scan_loop 0 init_state toks = Failed (Parse_error m) cs"
    by auto
  then show ?thesis
    by (simp add: parse_tokens_def)
qed


lemma output_right_after_input:
  assumes "reach init_state pre = Some st" "g = ''>'' \<or> g = ''>>''" "length pre + 1 < MAX_INPUT"
  shows "\<exists>m. parse_tokens (pre @ ''<'' # g # rest) = Returned EXEC_FAILURE [m] (launched st)"
proof -
  have wf: "wf_state st"
    using reach_wf [OF wf_init assms(1)] .
  have pt: "parse_tokens (pre @ ''<'' # g # rest) =
     (case scan_loop (length pre) st (''<'' # g # rest) of
        Failed Out_of_bounds cs \<Rightarrow> Memory_fault
      | Failed (Parse_error msg) cs \<Rightarrow> Returned EXEC_FAILURE [msg] cs
      | Broke st' \<Rightarrow> finish st')"
    using assms(3) parse_tokens_reach [OF assms(1), of "''<'' # g # rest"] by simp
  show ?thesis
  proof (cases "MAX_ARGS + 1 \<le> cmd_index st")
    case True
    then show ?thesis
      using pt assms(3) by simp
  next
    case False
    then have le: "cmd_index st \<le> MAX_ARGS" by simp
    show ?thesis
    proof (cases "redirect_mode st = REG_CMD")
      case False
      then have "step st ''<'' = Inl (Parse_error ''Cannot perform redirection before input.\<newline>'')"
        using step_input_error by blast
      then show ?thesis
        using pt assms(3) \<open>\<not> MAX_ARGS + 1 \<le> cmd_index st\<close> by simp
    next
      case True
      from save_command_wf [OF wf le] obtain d c where
        sc: "save_command (redirect_cmd st) (command st) (cmd_index st) = Some (d, c)"
        "length c = MAX_ARGS + 1" "c ! 0 = None"
        by blast
      define s1 where "s1 = st\<lparr>redirect_cmd := d, command := c, redirect_mode := INPUT, cmd_index := 0\<rparr>"
      have s1: "step st ''<'' = Inr s1"
        using True sc(1) by (simp add: step_def s1_def)
      have "step s1 g = Inl (Parse_error ''No file for input redirection.'')"
        using assms(2) sc(2,3) by (auto simp: step_def s1_def fetch_def)
      then have "scan_loop (length pre) st (''<'' # g # rest) =
          Failed (Parse_error ''No file for input redirection.'') (launched st)"
        using s1 assms(3) \<open>\<not> MAX_ARGS + 1 \<le> cmd_index st\<close> by (simp add: s1_def)
      then show ?thesis
        using pt by simp
    qed
  qed
qed

subsection \<open>Lines without operators\<close>

lemma takeWhile_Some:
  "takeWhile (\<lambda>s. s \<noteq> None) (map Some ts @ None # r) = map Some ts"
  by (induction ts) simp_all

lemma map_the_Some: "map the (map Some ts) = ts"
  by (induction ts) simp_all

lemma argv_array:
  assumes "length toks \<le> MAX_ARGS"
  shows "c_argv (map Some toks @ replicate (MAX_ARGS + 1 - length toks) None) = Some toks"
    and "slot0 (map Some toks @ replicate (MAX_ARGS + 1 - length toks) None) =
           (if toks = [] then None else Some (hd toks))"
proof -
  obtain k where k: "MAX_ARGS + 1 - length toks = Suc k"
    using assms by (metis Suc_diff_le Suc_eq_plus1 add_Suc_right le_SucI add.commute add_0)
  have "c_argv (map Some toks @ None # replicate k None) = Some toks"
    unfolding c_argv_def takeWhile_Some map_the_Some by simp
  then show "c_argv (map Some toks @ replicate (MAX_ARGS + 1 - length toks) None) = Some toks"
    unfolding k by simp
  show "slot0 (map Some toks @ replicate (MAX_ARGS + 1 - length toks) None) =
           (if toks = [] then None else Some (hd toks))"
    unfolding k by (cases toks) (simp_all add: slot0_def fetch_def)
qed

lemma plain_line_parse:
  assumes "\<forall>t \<in> set toks. \<not> is_operator t" "length toks \<le> MAX_ARGS" 
  shows "parse_tokens toks =
    Returned EXEC_SUCCESS []
      [Exec_command REG_CMD (map Some toks @ replicate (MAX_ARGS + 1 - length toks) None) 0]"
proof -
  let ?a = "map Some toks @ replicate (MAX_ARGS + 1 - length toks) None"
  define st where "st = init_state\<lparr>command := ?a, cmd_index := length toks\<rparr>"
  have "drop (length toks) (replicate (MAX_ARGS + 1) (None :: string option)) =
      replicate (MAX_ARGS + 1 - length toks) None"
    by (rule drop_replicate)
  then have r: "reach init_state toks = Some st"
    using reach_plain [OF wf_init assms(1)] assms(2)
    by (simp add: init_state_def st_def del: replicate_Suc drop_replicate)
  have wf: "wf_state st"
    using reach_wf [OF wf_init r] .
  have l: "length toks < MAX_INPUT"
    using assms(2) by (simp add: MAX_ARGS_def MAX_INPUT_def)
  have "?a ! length toks = None"
    using assms(2) by (simp add: nth_append)
  then have same: "?a[length toks := None] = ?a"
    by (metis list_update_id)
  have "scan_loop 0 init_state toks = scan_loop (length toks) st []"
    using scan_loop_reach [OF r, of 0 "[]"] l by simp
  also have "\<dots> = Broke (st\<lparr>command := (command st)[cmd_index st := None]\<rparr>)"
    using scan_loop_end [OF wf l] assms(2) by (simp add: st_def)
  also have "\<dots> = Broke st"
    using same by (simp add: st_def)
  finally show ?thesis
    by (simp add: parse_tokens_def finish_def st_def init_state_def)
qed

lemma exec_command_REG_CMD:
  assumes "fork_ok w (forks w)" "zombies w = []" "c_argv a = Some argv" "slot0 a = Some prog"
  shows "trace (exec_command REG_CMD a n w) =
      trace w @
        (if exec_ok w prog then
           [Ev_fork (forks w), Ev_execvp (forks w) (Some prog) (Some argv) True,
            Ev_end (forks w), Ev_wait (Some (forks w))]
         else
           [Ev_fork (forks w), Ev_execvp (forks w) (Some prog) (Some argv) False,
            Ev_stderr (Child (forks w)) (Some prog),
            Ev_perror (Child (forks w)) ''execvp()'', Ev_exit (Child (forks w)) EXIT_FAILURE,
            Ev_wait (Some (forks w))])"
    and "forks (exec_command REG_CMD a n w) = Suc (forks w)"
    and "alive (exec_command REG_CMD a n w) = alive w"
    and "ub (exec_command REG_CMD a n w) = ub w"
    and "zombies (exec_command REG_CMD a n w) = []"
    and "fds (exec_command REG_CMD a n w) Shell = fds w Shell"
  using assms
  by (simp_all add: exec_command_def exec_command_child_def sys_fork_def sys_wait_def emit_def
      execvp_and_handle_error_def run_program_def gone_def perror_exit_def perror_def sys_exit_def
      split: option.split desc.split)

text \<open>
  Claim C9, as the code has it.  For a line of at least one and at most \<open>MAX_ARGS\<close> tokens,
  none of them an operator, the function makes one call, \<^verbatim>\<open>exec_command\<close> in mode
  \<open>REG_CMD\<close>.  When the fork succeeds that call forks one child, the child calls
  \<^verbatim>\<open>execvp\<close> with the first token as program and the token list of the line as
  argument vector, and the parent's next and last step is the \<^verbatim>\<open>wait\<close> that
  collects this child.
\<close>

theorem plain_line_one_child:
  assumes "strtok_all input COMMAND_SEPARATOR = toks" and "toks \<noteq> []"
    and "\<forall>t \<in> set toks. \<not> is_operator t" and "length toks \<le> MAX_ARGS"
    and "alive w" and "\<not> ub w" and "zombies w = []" and "fork_ok w (forks w)"
  shows "(\<exists>a. parse_input_and_exec input COMMAND_SEPARATOR =
              Returned EXEC_SUCCESS [] [Exec_command REG_CMD a 0] \<and> c_argv a = Some toks) \<and>
     trace (run_line input w) =
       trace w @
         (if exec_ok w (hd toks) then
            [Ev_fork (forks w), Ev_execvp (forks w) (Some (hd toks)) (Some toks) True,
             Ev_end (forks w), Ev_wait (Some (forks w))]
          else
            [Ev_fork (forks w), Ev_execvp (forks w) (Some (hd toks)) (Some toks) False,
             Ev_stderr (Child (forks w)) (Some (hd toks)),
             Ev_perror (Child (forks w)) ''execvp()'', Ev_exit (Child (forks w)) EXIT_FAILURE,
             Ev_wait (Some (forks w))]) \<and>
     forks (run_line input w) = Suc (forks w) \<and> zombies (run_line input w) = [] \<and>
     alive (run_line input w)"
proof -
  let ?a = "map Some toks @ replicate (MAX_ARGS + 1 - length toks) None"
  have p: "parse_input_and_exec input COMMAND_SEPARATOR =
      Returned EXEC_SUCCESS [] [Exec_command REG_CMD ?a 0]"
    using plain_line_parse [OF assms(3,4)] assms(1) by (simp add: parse_input_and_exec_def)
  have av: "c_argv ?a = Some toks" "slot0 ?a = Some (hd toks)"
    using argv_array [OF assms(4)] assms(2) by simp_all
  let ?w = "w\<lparr>pipe_fds := None\<rparr>"
  have w: "fork_ok ?w (forks ?w)" "zombies ?w = []"
    using assms(7,8) by simp_all
  have rl: "run_line input w = exec_command REG_CMD ?a 0 ?w"
    using p assms(5,6) exec_command_REG_CMD(3,4) [OF w av, of 0]
    by (simp add: run_line_def)
  show ?thesis
    using p av(1) exec_command_REG_CMD [OF w av, of 0] assms(5) by (simp add: rl)
qed

theorem plain_line_one_child_witness:
  "trace (run_line ''ls -l /tmp'' boot) =
     [Ev_fork 0, Ev_execvp 0 (Some ''ls'') (Some [''ls'', ''-l'', ''/tmp'']) True, Ev_end 0,
      Ev_wait (Some 0)] \<and>
   forks (run_line ''ls -l /tmp'' boot) = 1"
proof -
  have t: "strtok_all ''ls -l /tmp'' COMMAND_SEPARATOR = [''ls'', ''-l'', ''/tmp'']"
    by code_simp
  have h: "[''ls'', ''-l'', ''/tmp''] \<noteq> []" "\<forall>t \<in> set [''ls'', ''-l'', ''/tmp'']. \<not> is_operator t"
    "length [''ls'', ''-l'', ''/tmp''] \<le> MAX_ARGS"
    by (simp_all add: is_operator_def MAX_ARGS_def)
  have b: "alive boot" "\<not> ub boot" "zombies boot = []" "fork_ok boot (forks boot)"
    by (simp_all add: boot_def)
  show ?thesis
    using plain_line_one_child [OF t h b] by (simp add: boot_def)
qed

text \<open>
  The claim as written fails on a line of eleven plain tokens: the leading check of the
  loop rejects it and no child is forked.
\<close>

theorem plain_line_one_child_counterexample:
  "length (strtok_all ''a b c d e f g h i j k'' COMMAND_SEPARATOR) = 11 \<and>
   list_all (\<lambda>t. \<not> is_operator t) (strtok_all ''a b c d e f g h i j k'' COMMAND_SEPARATOR) \<and>
   parse_input_and_exec ''a b c d e f g h i j k'' COMMAND_SEPARATOR =
     Returned EXEC_FAILURE [''Too many args.\<newline>''] [] \<and>
   forks (run_line ''a b c d e f g h i j k'' boot) = 0 \<and>
   trace (run_line ''a b c d e f g h i j k'' boot) = [Ev_printf Shell ''Too many args.\<newline>'']"
  by (intro conjI; code_simp)

subsection \<open>One redirection\<close>

lemma redirect_line_parse:
  assumes "\<forall>t \<in> set toks. \<not> is_operator t" "length toks \<le> MAX_ARGS" "\<not> is_operator f"
    and g: "g = ''<'' \<or> g = ''>'' \<or> g = ''>>''"
  shows "parse_tokens (toks @ [g, f]) =
    Returned EXEC_SUCCESS []
      [Redirect_io (if g = ''<'' then INPUT else if g = ''>>'' then OUTPUT_APPEND else OUTPUT)
         (Some (map Some toks @ replicate (MAX_ARGS + 1 - length toks) None)) (Some f) True]"
proof -
  let ?n = "length toks"
  let ?a = "map Some toks @ replicate (MAX_ARGS + 1 - ?n) None"
  let ?m = "if g = ''<'' then INPUT else if g = ''>>'' then OUTPUT_APPEND else OUTPUT"
  obtain k where k: "MAX_ARGS + 1 - ?n = Suc k" "k = MAX_ARGS - ?n"
    using assms(2) by (metis Suc_diff_le Suc_eq_plus1)
  have a: "?a = map Some toks @ None # replicate k None"
    unfolding k by simp
  have la: "length ?a = MAX_ARGS + 1"
    using assms(2) by simp
  define st where "st = init_state\<lparr>command := ?a, cmd_index := ?n\<rparr>"
  have "drop ?n (replicate (MAX_ARGS + 1) (None :: string option)) = replicate (MAX_ARGS + 1 - ?n) None"
    by (rule drop_replicate)
  then have r: "reach init_state toks = Some st"
    using reach_plain [OF wf_init assms(1)] assms(2)
    by (simp add: init_state_def st_def del: replicate_Suc drop_replicate)
  have wf: "wf_state st"
    using reach_wf [OF wf_init r] .
  have same: "?a[?n := None] = ?a"
    unfolding a by (simp add: list_update_append)
  have "take (Suc ?n) ?a = map Some toks @ [None]"
    unfolding a by simp
  moreover have "drop (Suc ?n) (replicate (MAX_ARGS + 1) (None :: string option)) = replicate k None"
    using k by (simp del: replicate_Suc)
  ultimately have d: "take (Suc ?n) ?a @ drop (Suc ?n) (replicate (MAX_ARGS + 1) None) = ?a"
    unfolding a by simp
  have sc: "save_command (redirect_cmd st) (command st) (cmd_index st) = Some (?a, ?a[0 := None])"
    using save_command_eq [of ?n "replicate (MAX_ARGS + 1) None" ?a] assms(2) same d
    by (simp add: st_def init_state_def del: replicate_Suc)
  define s1 where "s1 = st\<lparr>redirect_cmd := ?a, command := ?a[0 := None], redirect_mode := ?m, cmd_index := 0\<rparr>"
  have st1: "step st g = Inr s1"
    using g sc by (auto simp: step_def s1_def st_def init_state_def)
  define s2 where "s2 = s1\<lparr>command := ?a[0 := Some f], cmd_index := 1\<rparr>"
  have st2: "step s1 f = Inr s2"
    using assms(3) la by (simp add: step_plain store_def s1_def s2_def)
  have r2: "reach init_state (toks @ [g, f]) = Some s2"
    using r st1 st2 assms(2) by (simp add: reach_append st_def s1_def)
  have wf2: "wf_state s2"
    using reach_wf [OF wf_init r2] .
  have l: "length (toks @ [g, f]) < MAX_INPUT"
    using assms(2) by (simp add: MAX_ARGS_def MAX_INPUT_def)
  have "scan_loop 0 init_state (toks @ [g, f]) = scan_loop (length (toks @ [g, f])) s2 []"
    using scan_loop_reach [OF r2, of 0 "[]"] l by simp
  also have "\<dots> = Broke (s2\<lparr>command := (command s2)[cmd_index s2 := None]\<rparr>)"
    using scan_loop_end [OF wf2 l] by (simp add: s2_def MAX_ARGS_def)
  finally have "parse_tokens (toks @ [g, f]) = finish (s2\<lparr>command := (command s2)[cmd_index s2 := None]\<rparr>)"
    by (simp add: parse_tokens_def)
  moreover have "fetch ((command s2)[cmd_index s2 := None]) 0 = Some (Some f)"
    using la by (simp add: s2_def fetch_def MAX_ARGS_def)
  ultimately show ?thesis
    using g by (auto simp: finish_def s2_def s1_def st_def init_state_def)
qed

lemma lowest_free_Some:
  "lowest_free t limit = Some n \<Longrightarrow> t n = None \<and> n < limit"
  by (auto simp: lowest_free_def find_Some_iff)

lemma redirect_io_output_world:
  assumes m: "m = OUTPUT \<or> m = OUTPUT_APPEND"
    and fl: "fl = {O_WRONLY, O_CREAT} \<union> (if m = OUTPUT then {O_TRUNC} else {O_APPEND})"
    and fk: "fork_ok w (forks w)" and z: "zombies w = []"
    and av: "c_argv a = Some argv" "slot0 a = Some prog"
    and ex: "exec_ok w prog"
    and op: "open_ok w f fl"
    and n: "lowest_free (fds w Shell) (fd_limit w) = Some n"
    and so: "fds w Shell STDOUT_FILENO \<noteq> None" "STDOUT_FILENO < fd_limit w"
  shows "redirect_io m (Some a) (Some f) True w =
     w\<lparr>files := (files w)(f \<mapsto> (if m = OUTPUT then output_of w (forks w)
                        else (case files w f of None \<Rightarrow> [] | Some s \<Rightarrow> s) @ output_of w (forks w))),
       fds := (fds w)(Child (forks w) := (\<lambda>n. None)),
       trace := trace w @
         [Ev_open Shell f fl n, Ev_fork (forks w), Ev_dup2 (Child (forks w)) (File f fl) STDOUT_FILENO,
          Ev_close (Child (forks w)) n (File f fl),
          Ev_execvp (forks w) (Some prog) (Some argv) True, Ev_end (forks w),
          Ev_wait (Some (forks w)), Ev_close Shell n (File f fl)],
       forks := Suc (forks w)\<rparr>"
proof -
  from lowest_free_Some [OF n] have free: "fds w Shell n = None"
    by simp
  have n1: "n \<noteq> STDOUT_FILENO"
    using so(1) free by auto
  have idem: "(fds w Shell)(n := None) = fds w Shell"
    using free by (simp add: fun_upd_idem)
  have flags: "(if m = INPUT then {O_RDONLY}
                 else if m = OUTPUT then {O_WRONLY, O_CREAT} \<union> {O_TRUNC}
                 else if m = OUTPUT_APPEND then {O_WRONLY, O_CREAT} \<union> {O_APPEND}
                 else {O_WRONLY, O_CREAT}) = fl"
    using m fl by auto
  have cr: "O_CREAT \<in> fl" "O_WRONLY \<in> fl" "(O_TRUNC \<in> fl) = (m = OUTPUT)" "(O_APPEND \<in> fl) = (m \<noteq> OUTPUT)"
    using fl by auto
  have mm: "m \<noteq> REG_CMD" "m \<noteq> INPUT" "m = INPUT \<or> m = OUTPUT \<or> m = OUTPUT_APPEND"
    using m by auto
  show ?thesis
    unfolding redirect_io_def flags
    using mm n fk z av ex op so(2) n1 cr idem
    by (simp add: sys_defs fun_upd_twist cong: or_exit_cong fd_or_exit_cong)
qed

subsection \<open>Open flags\<close>

text \<open>
  A set of (file, flags) pairs that holds every \<^verbatim>\<open>open\<close> of a world's trace keeps
  holding them through every system call but \<^verbatim>\<open>open\<close> itself, and through a
  launcher when it holds the pairs that launcher may open.
\<close>

lemma within_emit: "within S w \<Longrightarrow> set (opened e) \<subseteq> S \<Longrightarrow> within S (emit e w)"
  by (auto simp: within_def opens_def emit_def)

lemma within_fields [simp]:
  "within S (w\<lparr>ub := u\<rparr>) = within S w"
  "within S (w\<lparr>pipe_fds := pf\<rparr>) = within S w"
  "within S (w\<lparr>files := fs\<rparr>) = within S w"
  "within S (w\<lparr>fds := t\<rparr>) = within S w"
  "within S (w\<lparr>zombies := z\<rparr>) = within S w"
  "within S (w\<lparr>alive := b\<rparr>) = within S w"
  "within S (w\<lparr>forks := k\<rparr>) = within S w"
  "within S (w\<lparr>pipes := k\<rparr>) = within S w"
  by (simp_all add: within_def opens_def)

lemma within_set_fd [simp]: "within S (set_fd p n d w) = within S w"
  by (simp add: set_fd_def)

lemma within_gone [simp]: "within S (gone p w) = within S w"
  by (cases p) (simp_all add: gone_def)

lemma within_sys_close: "within S w \<Longrightarrow> within S (snd (sys_close p n w))"
  by (auto simp: sys_close_def split: option.split intro!: within_emit)

lemma within_sys_dup2: "within S w \<Longrightarrow> within S (snd (sys_dup2 p a b w))"
  by (auto simp: sys_dup2_def split: option.split intro!: within_emit)

lemma within_sys_fork: "within S w \<Longrightarrow> within S (snd (sys_fork w))"
  by (auto simp: sys_fork_def intro!: within_emit)

lemma within_sys_pipe: "within S w \<Longrightarrow> within S (snd (sys_pipe w))"
  by (auto simp: sys_pipe_def split: option.split intro!: within_emit)

lemma within_sys_open:
  "within S w \<Longrightarrow> (\<And>f. path = Some f \<Longrightarrow> (f, fl) \<in> S) \<Longrightarrow> within S (snd (sys_open p path fl w))"
  by (auto simp: sys_open_def split: option.split intro!: within_emit)

lemma within_sys_wait: "within S w \<Longrightarrow> within S (sys_wait w)"
  by (auto simp: sys_wait_def split: list.split intro!: within_emit)

lemma within_perror: "within S w \<Longrightarrow> within S (perror p s w)"
  by (auto simp: perror_def intro!: within_emit)

lemma within_sys_exit: "within S w \<Longrightarrow> within S (sys_exit p s w)"
  by (auto simp: sys_exit_def intro!: within_emit)

lemma within_perror_exit: "within S w \<Longrightarrow> within S (perror_exit p s w)"
  by (auto simp: perror_exit_def intro!: within_sys_exit within_perror)

lemma within_run_program: "within S w \<Longrightarrow> within S (run_program c w)"
  by (auto simp: run_program_def split: option.split desc.split intro!: within_emit)

lemma within_execvp: "within S w \<Longrightarrow> within S (execvp_and_handle_error c p a w)"
  by (auto simp: execvp_and_handle_error_def split: option.split
      intro!: within_run_program within_perror_exit within_emit)

lemma within_or_exit:
  "within S (snd r) \<Longrightarrow> (\<And>w'. within S w' \<Longrightarrow> within S (k w')) \<Longrightarrow> within S (or_exit p c r k)"
  by (auto simp: or_exit_def intro!: within_perror_exit)

lemma within_fd_or_exit:
  "within S (snd r) \<Longrightarrow> (\<And>n w'. within S w' \<Longrightarrow> within S (k n w')) \<Longrightarrow> within S (fd_or_exit p c r k)"
  by (auto simp: fd_or_exit_def split: option.split intro!: within_perror_exit)

lemma within_close_pipes:
  "within S w \<Longrightarrow> (\<And>w'. within S w' \<Longrightarrow> within S (k w')) \<Longrightarrow> within S (close_pipes p pr w k)"
  by (auto simp: close_pipes_def intro!: within_or_exit within_sys_close)

lemmas within_rules =
  within_or_exit within_fd_or_exit within_close_pipes within_sys_close within_sys_dup2 within_sys_fork
  within_sys_pipe within_sys_wait within_perror within_sys_exit within_perror_exit within_execvp
  within_emit

lemma within_exec_command: "within S w \<Longrightarrow> within S (exec_command m a n w)"
  by (auto simp: exec_command_def exec_command_child_def case_prod_beta split: option.split
      intro!: within_rules)

lemma within_redirect_io:
  assumes "within S w" "\<And>f. io_file = Some f \<Longrightarrow> (f,
     (if m = INPUT then {O_RDONLY}
      else if m = OUTPUT then {O_WRONLY, O_CREAT} \<union> {O_TRUNC}
      else if m = OUTPUT_APPEND then {O_WRONLY, O_CREAT} \<union> {O_APPEND}
      else {O_WRONLY, O_CREAT})) \<in> S"
  shows "within S (redirect_io m cmd io_file e w)"
proof -
  define fl where "fl = (if m = INPUT then {O_RDONLY}
      else if m = OUTPUT then {O_WRONLY, O_CREAT} \<union> {O_TRUNC}
      else if m = OUTPUT_APPEND then {O_WRONLY, O_CREAT} \<union> {O_APPEND}
      else {O_WRONLY, O_CREAT})"
  define r where "r = sys_open Shell io_file fl w"
  have o: "within S (snd r)"
    unfolding r_def using assms unfolding fl_def [symmetric] by (intro within_sys_open)
  have after: "within S (case sys_close Shell n w2 of (False, w3) \<Rightarrow> perror Shell ''close()'' w3
                 | (True, w3) \<Rightarrow> w3)" if "within S w2" for n w2
    using within_sys_close [OF that, of Shell n]
    by (cases "sys_close Shell n w2") (auto intro: within_perror split: bool.split)
  have body: "within S (if e then (case cmd of None \<Rightarrow> snd r\<lparr>ub := True\<rparr>
                       | Some argv \<Rightarrow> exec_command m argv n (snd r)) else snd r)" for n
    using o by (auto split: option.split intro: within_exec_command)
  have red: "redirect_io m cmd io_file e w =
     (if m = INPUT \<and> \<not> e then w
      else (case r of
           (None, w1) \<Rightarrow> perror Shell ''open()'' w1
         | (Some io_file_fd, w1) \<Rightarrow>
             (case (if e then
                      (case cmd of
                         None \<Rightarrow> w1\<lparr>ub := True\<rparr>
                       | Some argv \<Rightarrow> exec_command m argv io_file_fd w1)
                    else w1) of w2 \<Rightarrow>
                (case sys_close Shell io_file_fd w2 of
                   (False, w3) \<Rightarrow> perror Shell ''close()'' w3
                 | (True, w3) \<Rightarrow> w3))))"
    unfolding redirect_io_def r_def fl_def ..
  show ?thesis
  proof (cases "m = INPUT \<and> \<not> e")
    case True
    then show ?thesis
      unfolding red using assms(1) by simp
  next
    case False
    obtain x w1 where rr: "r = (x, w1)"
      by (cases r)
    then have sr: "snd r = w1"
      by simp
    show ?thesis
    proof (cases x)
      case None
      then show ?thesis
        unfolding red using False rr o by (auto simp: within_perror)
    next
      case (Some n)
      then show ?thesis
        unfolding red using False rr after [OF body [of n, unfolded sr], of n] by auto
    qed
  qed
qed

lemma within_exec_redir_bothio:
  assumes "within S w" "\<And>f. ifile = Some f \<Longrightarrow> (f, {O_RDONLY}) \<in> S"
    "\<And>f. ofile = Some f \<Longrightarrow>
       (f, {O_WRONLY, O_CREAT} \<union> (if m = OUTPUT_APPEND then {O_APPEND} else {O_TRUNC})) \<in> S"
  shows "within S (exec_redir_bothio m cmd ifile ofile w)"
  using assms
  by (auto simp: exec_redir_bothio_def exec_redir_bothio_child_def case_prod_beta
      simp del: Un_insert_right split: option.split
      intro!: within_rules within_sys_open)

lemma within_input_pipe: "within S w \<Longrightarrow> within S (input_pipe cmd w)"
  by (auto simp: input_pipe_def case_prod_beta split: option.split intro!: within_rules)

lemma within_inter_pipe: "within S w \<Longrightarrow> within S (inter_pipe cmd w)"
  by (auto simp: inter_pipe_def case_prod_beta split: option.split intro!: within_rules)

lemma within_output_pipe: "within S w \<Longrightarrow> within S (output_pipe cmd w)"
  by (auto simp: output_pipe_def case_prod_beta split: option.split intro!: within_rules)

lemma within_input_pipe_redirect:
  assumes "within S w" "\<And>f. ifile = Some f \<Longrightarrow> (f, {O_RDONLY}) \<in> S"
  shows "within S (input_pipe_redirect cmd ifile w)"
  using assms
  by (auto simp: input_pipe_redirect_def case_prod_beta split: option.split
      intro!: within_rules within_sys_open)

lemma within_output_pipe_redirect:
  assumes "within S w"
    "\<And>f. ofile = Some f \<Longrightarrow>
       (f, {O_CREAT, O_WRONLY} \<union> (if m = OUTPUT_APPEND then {O_APPEND} else {O_TRUNC})) \<in> S"
  shows "within S (output_pipe_redirect m cmd ofile w)"
  using assms
  by (auto simp: output_pipe_redirect_def case_prod_beta simp del: Un_insert_right split: option.split
      intro!: within_rules within_sys_open)

lemma redirect_line_run:
  assumes line: "strtok_all input COMMAND_SEPARATOR = toks @ [g, f]" "toks \<noteq> []"
    "\<forall>t \<in> set toks. \<not> is_operator t" "length toks \<le> MAX_ARGS" "\<not> is_operator f"
    and g: "g = ''>'' \<or> g = ''>>''"
    and fl: "fl = {O_WRONLY, O_CREAT} \<union> (if g = ''>'' then {O_TRUNC} else {O_APPEND})"
    and env: "alive w" "\<not> ub w" "zombies w = []" "fork_ok w (forks w)" "exec_ok w (hd toks)"
    "open_ok w f fl" "lowest_free (fds w Shell) (fd_limit w) = Some n"
    "fds w Shell STDOUT_FILENO \<noteq> None" "STDOUT_FILENO < fd_limit w"
  shows "run_line input w =
     w\<lparr>files := (files w)(f \<mapsto> (if g = ''>'' then output_of w (forks w)
                        else (case files w f of None \<Rightarrow> [] | Some s \<Rightarrow> s) @ output_of w (forks w))),
       fds := (fds w)(Child (forks w) := (\<lambda>n. None)),
       trace := trace w @
         [Ev_open Shell f fl n, Ev_fork (forks w), Ev_dup2 (Child (forks w)) (File f fl) STDOUT_FILENO,
          Ev_close (Child (forks w)) n (File f fl),
          Ev_execvp (forks w) (Some (hd toks)) (Some toks) True, Ev_end (forks w),
          Ev_wait (Some (forks w)), Ev_close Shell n (File f fl)],
       forks := Suc (forks w), pipe_fds := None\<rparr>"
proof -
  let ?a = "map Some toks @ replicate (MAX_ARGS + 1 - length toks) None"
  let ?w = "w\<lparr>pipe_fds := None\<rparr>"
  define m where "m = (if g = ''>>'' then OUTPUT_APPEND else OUTPUT)"
  have gne: "g \<noteq> ''<''" and mo: "(m = OUTPUT) = (g = ''>'')"
    using g by (auto simp: m_def)
  have p: "parse_input_and_exec input COMMAND_SEPARATOR =
      Returned EXEC_SUCCESS [] [Redirect_io m (Some ?a) (Some f) True]"
    using redirect_line_parse [OF line(3,4,5), of g] g gne line(1)
    by (simp add: parse_input_and_exec_def m_def)
  have av: "c_argv ?a = Some toks" "slot0 ?a = Some (hd toks)"
    using argv_array [OF line(4)] line(2) by simp_all
  have m: "m = OUTPUT \<or> m = OUTPUT_APPEND"
    by (simp add: m_def)
  have fl': "fl = {O_WRONLY, O_CREAT} \<union> (if m = OUTPUT then {O_TRUNC} else {O_APPEND})"
    using fl mo by simp
  have w: "fork_ok ?w (forks ?w)" "zombies ?w = []" "exec_ok ?w (hd toks)" "open_ok ?w f fl"
    "lowest_free (fds ?w Shell) (fd_limit ?w) = Some n" "fds ?w Shell STDOUT_FILENO \<noteq> None"
    "STDOUT_FILENO < fd_limit ?w"
    using env by simp_all
  note r = redirect_io_output_world [OF m fl' w(1,2) av w(3-7)]
  have ok: "alive (redirect_io m (Some ?a) (Some f) True ?w)"
    "\<not> ub (redirect_io m (Some ?a) (Some f) True ?w)"
    unfolding r using env(1,2) by simp_all
  have rl: "run_line input w = redirect_io m (Some ?a) (Some f) True ?w"
    unfolding run_line_def p using env(1,2) ok by simp
  show ?thesis
    unfolding rl r by (simp add: mo)
qed

text \<open>
  Whatever a launcher opens, it opens with the flags of the role it was called in: a file
  named for input with \<open>O_RDONLY\<close>; a file named for output in mode \<open>OUTPUT\<close> with
  \<open>O_WRONLY\<close>, \<open>O_CREAT\<close>, \<open>O_TRUNC\<close>; in mode \<open>OUTPUT_APPEND\<close> with
  \<open>O_WRONLY\<close>, \<open>O_CREAT\<close>, \<open>O_APPEND\<close>.  For a line \<^verbatim>\<open>cmd > f\<close> or
  \<^verbatim>\<open>cmd >> f\<close> whose open, fork and exec succeed, the run is open, fork, dup2 onto
  standard output, close, exec, wait, close; after one run with \<^verbatim>\<open>>\<close> the file
  holds the output of that run and nothing else; after two runs with \<^verbatim>\<open>>>\<close> it
  holds what it held before followed by the output of the first run and then that of the
  second.
\<close>

lemma open_flags_by_role:
  "set (opens (redirect_io INPUT cmd (Some f) e w)) \<subseteq> set (opens w) \<union> {(f, {O_RDONLY})} \<and>
   set (opens (input_pipe_redirect a (Some f) w)) \<subseteq> set (opens w) \<union> {(f, {O_RDONLY})} \<and>
   set (opens (redirect_io OUTPUT cmd (Some f) e w)) \<subseteq>
     set (opens w) \<union> {(f, {O_WRONLY, O_CREAT, O_TRUNC})} \<and>
   set (opens (output_pipe_redirect OUTPUT a (Some f) w)) \<subseteq>
     set (opens w) \<union> {(f, {O_WRONLY, O_CREAT, O_TRUNC})} \<and>
   set (opens (redirect_io OUTPUT_APPEND cmd (Some f) e w)) \<subseteq>
     set (opens w) \<union> {(f, {O_WRONLY, O_CREAT, O_APPEND})} \<and>
   set (opens (output_pipe_redirect OUTPUT_APPEND a (Some f) w)) \<subseteq>
     set (opens w) \<union> {(f, {O_WRONLY, O_CREAT, O_APPEND})} \<and>
   set (opens (exec_redir_bothio OUTPUT a (Some i) (Some f) w)) \<subseteq>
     set (opens w) \<union> {(i, {O_RDONLY}), (f, {O_WRONLY, O_CREAT, O_TRUNC})} \<and>
   set (opens (exec_redir_bothio OUTPUT_APPEND a (Some i) (Some f) w)) \<subseteq>
     set (opens w) \<union> {(i, {O_RDONLY}), (f, {O_WRONLY, O_CREAT, O_APPEND})} \<and>
   (strtok_all input COMMAND_SEPARATOR = toks @ [g, f] \<and> toks \<noteq> [] \<and>
    (\<forall>t \<in> set toks. \<not> is_operator t) \<and> length toks \<le> MAX_ARGS \<and> \<not> is_operator f \<and>
    (g = ''>'' \<or> g = ''>>'') \<and>
    fl = {O_WRONLY, O_CREAT} \<union> (if g = ''>'' then {O_TRUNC} else {O_APPEND}) \<and>
    alive w \<and> \<not> ub w \<and> zombies w = [] \<and> fork_ok w (forks w) \<and> fork_ok w (Suc (forks w)) \<and>
    exec_ok w (hd toks) \<and> open_ok w f fl \<and> lowest_free (fds w Shell) (fd_limit w) = Some n \<and>
    fds w Shell STDOUT_FILENO \<noteq> None \<and> STDOUT_FILENO < fd_limit w \<longrightarrow>
      trace (run_line input w) =
        trace w @
         [Ev_open Shell f fl n, Ev_fork (forks w), Ev_dup2 (Child (forks w)) (File f fl) STDOUT_FILENO,
          Ev_close (Child (forks w)) n (File f fl),
          Ev_execvp (forks w) (Some (hd toks)) (Some toks) True, Ev_end (forks w),
          Ev_wait (Some (forks w)), Ev_close Shell n (File f fl)] \<and>
      files (run_line input w) f =
        Some (if g = ''>'' then output_of w (forks w)
              else (case files w f of None \<Rightarrow> [] | Some s \<Rightarrow> s) @ output_of w (forks w)) \<and>
      files (run_line input (run_line input w)) f =
        Some (if g = ''>'' then output_of w (Suc (forks w))
              else (case files w f of None \<Rightarrow> [] | Some s \<Rightarrow> s) @ output_of w (forks w) @
                   output_of w (Suc (forks w))))"
proof (intro conjI impI)
  have base: "within (set (opens w) \<union> X) w" for X
    by (auto simp: within_def)
  show "set (opens (redirect_io INPUT cmd (Some f) e w)) \<subseteq> set (opens w) \<union> {(f, {O_RDONLY})}"
    using within_redirect_io [OF base, of "Some f" INPUT "{(f, {O_RDONLY})}" cmd e]
    by (simp add: within_def)
  show "set (opens (input_pipe_redirect a (Some f) w)) \<subseteq> set (opens w) \<union> {(f, {O_RDONLY})}"
    using within_input_pipe_redirect [OF base, of "Some f" "{(f, {O_RDONLY})}" a]
    by (simp add: within_def)
  show "set (opens (redirect_io OUTPUT cmd (Some f) e w)) \<subseteq>
     set (opens w) \<union> {(f, {O_WRONLY, O_CREAT, O_TRUNC})}"
    using within_redirect_io [OF base, of "Some f" OUTPUT "{(f, {O_WRONLY, O_CREAT, O_TRUNC})}" cmd e]
    by (simp add: within_def insert_commute)
  show "set (opens (output_pipe_redirect OUTPUT a (Some f) w)) \<subseteq>
     set (opens w) \<union> {(f, {O_WRONLY, O_CREAT, O_TRUNC})}"
    using within_output_pipe_redirect [OF base, of "Some f" OUTPUT "{(f, {O_WRONLY, O_CREAT, O_TRUNC})}" a]
    by (simp add: within_def insert_commute)
  show "set (opens (redirect_io OUTPUT_APPEND cmd (Some f) e w)) \<subseteq>
     set (opens w) \<union> {(f, {O_WRONLY, O_CREAT, O_APPEND})}"
    using within_redirect_io [OF base, of "Some f" OUTPUT_APPEND "{(f, {O_WRONLY, O_CREAT, O_APPEND})}" cmd e]
    by (simp add: within_def insert_commute)
  show "set (opens (output_pipe_redirect OUTPUT_APPEND a (Some f) w)) \<subseteq>
     set (opens w) \<union> {(f, {O_WRONLY, O_CREAT, O_APPEND})}"
    using within_output_pipe_redirect [OF base, of "Some f" OUTPUT_APPEND "{(f, {O_WRONLY, O_CREAT, O_APPEND})}" a]
    by (simp add: within_def insert_commute)
  show "set (opens (exec_redir_bothio OUTPUT a (Some i) (Some f) w)) \<subseteq>
     set (opens w) \<union> {(i, {O_RDONLY}), (f, {O_WRONLY, O_CREAT, O_TRUNC})}"
    using within_exec_redir_bothio [OF base, of "Some i" "{(i, {O_RDONLY}), (f, {O_WRONLY, O_CREAT, O_TRUNC})}"
        "Some f" OUTPUT a]
    by (simp add: within_def insert_commute)
  show "set (opens (exec_redir_bothio OUTPUT_APPEND a (Some i) (Some f) w)) \<subseteq>
     set (opens w) \<union> {(i, {O_RDONLY}), (f, {O_WRONLY, O_CREAT, O_APPEND})}"
    using within_exec_redir_bothio [OF base, of "Some i" "{(i, {O_RDONLY}), (f, {O_WRONLY, O_CREAT, O_APPEND})}"
        "Some f" OUTPUT_APPEND a]
    by (simp add: within_def insert_commute)
next
  assume h: "strtok_all input COMMAND_SEPARATOR = toks @ [g, f] \<and> toks \<noteq> [] \<and>
    (\<forall>t \<in> set toks. \<not> is_operator t) \<and> length toks \<le> MAX_ARGS \<and> \<not> is_operator f \<and>
    (g = ''>'' \<or> g = ''>>'') \<and>
    fl = {O_WRONLY, O_CREAT} \<union> (if g = ''>'' then {O_TRUNC} else {O_APPEND}) \<and>
    alive w \<and> \<not> ub w \<and> zombies w = [] \<and> fork_ok w (forks w) \<and> fork_ok w (Suc (forks w)) \<and>
    exec_ok w (hd toks) \<and> open_ok w f fl \<and> lowest_free (fds w Shell) (fd_limit w) = Some n \<and>
    fds w Shell STDOUT_FILENO \<noteq> None \<and> STDOUT_FILENO < fd_limit w"
  then have line: "strtok_all input COMMAND_SEPARATOR = toks @ [g, f]" "toks \<noteq> []"
    "\<forall>t \<in> set toks. \<not> is_operator t" "length toks \<le> MAX_ARGS" "\<not> is_operator f"
    and g: "g = ''>'' \<or> g = ''>>''"
    and fl: "fl = {O_WRONLY, O_CREAT} \<union> (if g = ''>'' then {O_TRUNC} else {O_APPEND})"
    and env: "alive w" "\<not> ub w" "zombies w = []" "fork_ok w (forks w)" "exec_ok w (hd toks)"
    "open_ok w f fl" "lowest_free (fds w Shell) (fd_limit w) = Some n"
    "fds w Shell STDOUT_FILENO \<noteq> None" "STDOUT_FILENO < fd_limit w"
    and fk2: "fork_ok w (Suc (forks w))"
    by blast+
  note r1 = redirect_line_run [OF line g fl env]
  define w1 where "w1 = run_line input w"
  have w1: "alive w1" "\<not> ub w1" "zombies w1 = []" "fork_ok w1 (forks w1)" "exec_ok w1 (hd toks)"
    "open_ok w1 f fl" "lowest_free (fds w1 Shell) (fd_limit w1) = Some n"
    "fds w1 Shell STDOUT_FILENO \<noteq> None" "STDOUT_FILENO < fd_limit w1"
    unfolding w1_def r1 using env fk2 by simp_all
  note r2 = redirect_line_run [OF line g fl w1]
  have f1: "files w1 f = Some (if g = ''>'' then output_of w (forks w)
              else (case files w f of None \<Rightarrow> [] | Some s \<Rightarrow> s) @ output_of w (forks w))"
    and k1: "forks w1 = Suc (forks w)" and o1: "output_of w1 = output_of w"
    unfolding w1_def r1 by simp_all
  show "trace (run_line input w) =
        trace w @
         [Ev_open Shell f fl n, Ev_fork (forks w), Ev_dup2 (Child (forks w)) (File f fl) STDOUT_FILENO,
          Ev_close (Child (forks w)) n (File f fl),
          Ev_execvp (forks w) (Some (hd toks)) (Some toks) True, Ev_end (forks w),
          Ev_wait (Some (forks w)), Ev_close Shell n (File f fl)]"
    unfolding r1 by simp
  show "files (run_line input w) f =
        Some (if g = ''>'' then output_of w (forks w)
              else (case files w f of None \<Rightarrow> [] | Some s \<Rightarrow> s) @ output_of w (forks w))"
    using f1 by (simp add: w1_def)
  have "files (run_line input w1) f =
        Some (if g = ''>'' then output_of w (Suc (forks w))
              else (case files w f of None \<Rightarrow> [] | Some s \<Rightarrow> s) @ output_of w (forks w) @
                   output_of w (Suc (forks w)))"
    unfolding r2 using f1 k1 o1 by simp
  then show "files (run_line input (run_line input w)) f =
        Some (if g = ''>'' then output_of w (Suc (forks w))
              else (case files w f of None \<Rightarrow> [] | Some s \<Rightarrow> s) @ output_of w (forks w) @
                   output_of w (Suc (forks w)))"
    by (simp add: w1_def)
qed

lemma append_twice_example:
  "trace (run_line ''cmd >> out.txt'' boot) =
     [Ev_open Shell ''out.txt'' {O_WRONLY, O_CREAT, O_APPEND} 3, Ev_fork 0,
      Ev_dup2 (Child 0) (File ''out.txt'' {O_WRONLY, O_CREAT, O_APPEND}) STDOUT_FILENO,
      Ev_close (Child 0) 3 (File ''out.txt'' {O_WRONLY, O_CREAT, O_APPEND}),
      Ev_execvp 0 (Some ''cmd'') (Some [''cmd'']) True, Ev_end 0, Ev_wait (Some 0),
      Ev_close Shell 3 (File ''out.txt'' {O_WRONLY, O_CREAT, O_APPEND})] \<and>
   files (run_line ''cmd >> out.txt'' (run_line ''cmd >> out.txt'' boot)) ''out.txt'' =
     Some ''outout''"
proof -
  let ?fl = "{O_WRONLY, O_CREAT} \<union> (if ''>>'' = ''>'' then {O_TRUNC} else {O_APPEND})"
  have t: "strtok_all ''cmd >> out.txt'' COMMAND_SEPARATOR = [''cmd''] @ [''>>'', ''out.txt'']"
    by code_simp
  have lf: "lowest_free (fds boot Shell) (fd_limit boot) = Some 3"
    by code_simp
  have h: "[''cmd''] \<noteq> []" "\<forall>t \<in> set [''cmd'']. \<not> is_operator t" "length [''cmd''] \<le> MAX_ARGS"
    "\<not> is_operator ''out.txt''" "''>>'' = ''>'' \<or> ''>>'' = ''>>''"
    by (simp_all add: is_operator_def MAX_ARGS_def)
  have b: "alive boot" "\<not> ub boot" "zombies boot = []" "fork_ok boot (forks boot)"
    "fork_ok boot (Suc (forks boot))" "exec_ok boot (hd [''cmd''])" "open_ok boot ''out.txt'' ?fl"
    "fds boot Shell STDOUT_FILENO \<noteq> None" "STDOUT_FILENO < fd_limit boot"
    by (simp_all add: boot_def STDOUT_FILENO_def)
  have v: "forks boot = 0" "trace boot = []" "files boot ''out.txt'' = None" "output_of boot = (\<lambda>c. ''out'')"
    by (simp_all add: boot_def)
  from open_flags_by_role
    [of None "''out.txt''" False boot "[]" "''x''" "''cmd >> out.txt''" "[''cmd'']" "''>>''" ?fl 3]
    t lf h b
  show ?thesis
    by (simp add: v insert_commute)
qed

subsection \<open>Pipelines and their descriptors\<close>

text \<open>
  The line \<^verbatim>\<open>a | b | c\<close> from a fresh shell: three children; each of the two pipes
  is closed once per end by the parent and once per end by every child that holds it; at
  the end the parent holds its three standard descriptors and nothing else.
\<close>

lemma pipeline_of_three:
  "trace (run_line ''a | b | c'' boot) =
     [Ev_pipe 0 3 4, Ev_fork 0, Ev_dup2 (Child 0) (Pipe_write 0) 1,
      Ev_close (Child 0) 3 (Pipe_read 0), Ev_close (Child 0) 4 (Pipe_write 0),
      Ev_execvp 0 (Some ''a'') (Some [''a'']) True, Ev_end 0, Ev_wait (Some 0),
      Ev_pipe 1 5 6, Ev_fork 1, Ev_dup2 (Child 1) (Pipe_read 0) 0,
      Ev_dup2 (Child 1) (Pipe_write 1) 1, Ev_close (Child 1) 3 (Pipe_read 0),
      Ev_close (Child 1) 4 (Pipe_write 0), Ev_close (Child 1) 5 (Pipe_read 1),
      Ev_close (Child 1) 6 (Pipe_write 1),
      Ev_execvp 1 (Some ''b'') (Some [''b'']) True, Ev_end 1,
      Ev_close Shell 3 (Pipe_read 0), Ev_close Shell 4 (Pipe_write 0),
      Ev_wait (Some 1), Ev_fork 2, Ev_dup2 (Child 2) (Pipe_read 1) 0,
      Ev_close (Child 2) 5 (Pipe_read 1), Ev_close (Child 2) 6 (Pipe_write 1),
      Ev_execvp 2 (Some ''c'') (Some [''c'']) True, Ev_end 2,
      Ev_close Shell 5 (Pipe_read 1), Ev_close Shell 6 (Pipe_write 1),
      Ev_wait (Some 2)] \<and>
   forks (run_line ''a | b | c'' boot) = 3 \<and>
   map (fds (run_line ''a | b | c'' boot) Shell) [0..<8] =
     [Some Tty, Some Tty, Some Tty, None, None, None, None, None]"
proof -
  have p: "parse_input_and_exec ''a | b | c'' COMMAND_SEPARATOR =
     Returned 0 []
       [Input_pipe (Some ''a'' # replicate 10 None), Inter_pipe (Some ''b'' # replicate 10 None),
        Output_pipe (Some ''c'' # replicate 10 None)]"
    by code_simp
  have u: "[0..<8] = [0, 1, 2, 3, 4, 5, 6, 7]"
    by code_simp
  show ?thesis
    unfolding run_line_def p u
    by (simp add: kernel_defs upt16 insert_commute cong: or_exit_cong fd_or_exit_cong close_pipes_cong)
qed

text \<open>
  Claim C3 fails on the code.  On the line \<^verbatim>\<open>a |\<close> the first stage creates a pipe
  and runs \<^verbatim>\<open>a\<close>; the end of the line then reports "No file for I/O redirection."
  and the function returns.  The parent has closed neither end of the pipe: both
  descriptors are still open in its table, and \<^verbatim>\<open>pipe_fds\<close>, the only place that held
  their numbers, is gone with the function's frame.
\<close>

theorem pipe_pair_left_open:
  "trace (run_line ''a |'' boot) =
     [Ev_pipe 0 3 4, Ev_fork 0, Ev_dup2 (Child 0) (Pipe_write 0) 1,
      Ev_close (Child 0) 3 (Pipe_read 0), Ev_close (Child 0) 4 (Pipe_write 0),
      Ev_execvp 0 (Some ''a'') (Some [''a'']) True, Ev_end 0, Ev_wait (Some 0),
      Ev_printf Shell ''No file for I/O redirection.\<newline>''] \<and>
   fds (run_line ''a |'' boot) Shell 3 = Some (Pipe_read 0) \<and>
   fds (run_line ''a |'' boot) Shell 4 = Some (Pipe_write 0) \<and>
   alive (run_line ''a |'' boot)"
proof -
  have p: "parse_input_and_exec ''a |'' COMMAND_SEPARATOR =
     Returned (- 1) [''No file for I/O redirection.\<newline>''] [Input_pipe (Some ''a'' # replicate 10 None)]"
    by code_simp
  show ?thesis
    unfolding run_line_def p
    by (simp add: kernel_defs upt16 insert_commute cong: or_exit_cong fd_or_exit_cong close_pipes_cong)
qed

subsection \<open>Chains of output redirections\<close>

text \<open>
  A \<^verbatim>\<open>>\<close> or \<^verbatim>\<open>>>\<close> read in an output mode with a token in slot 0: the token
  is handed to \<^verbatim>\<open>redirect_io\<close> at once, in the mode of the operator before it and
  without a command to run; the mode becomes that of the new operator and the index goes
  back to 0.  Slot 0 itself keeps the token.
\<close>

lemma output_after_output:
  assumes "redirect_mode st = OUTPUT \<or> redirect_mode st = OUTPUT_APPEND"
    and "command st \<noteq> []" and "command st ! 0 = Some f" and "g = ''>'' \<or> g = ''>>''"
  shows "step st g =
    Inr (st\<lparr>launched := launched st @ [Redirect_io (redirect_mode st) None (Some f) False],
            redirect_mode := (if g = ''>>'' then OUTPUT_APPEND else OUTPUT), cmd_index := 0\<rparr>)"
  using assms by (auto simp: step_def fetch_def)

lemma last_redirection_wins:
  "parse_input_and_exec ''cmd > a > b'' COMMAND_SEPARATOR =
     Returned EXEC_SUCCESS []
       [Redirect_io OUTPUT None (Some ''a'') False,
        Redirect_io OUTPUT (Some (Some ''cmd'' # replicate 10 None)) (Some ''b'') True] \<and>
   files (run_line ''cmd > a > b'' boot) ''a'' = Some [] \<and>
   files (run_line ''cmd > a > b'' boot) ''b'' = Some ''out''"
proof -
  have p: "parse_input_and_exec ''cmd > a > b'' COMMAND_SEPARATOR =
     Returned 0 []
       [Redirect_io OUTPUT None (Some ''a'') False,
        Redirect_io OUTPUT (Some (Some ''cmd'' # replicate 10 None)) (Some ''b'') True]"
    by code_simp
  show ?thesis
    unfolding run_line_def p
    by (simp add: EXEC_SUCCESS_def) (simp add: kernel_defs upt16 insert_commute cong: or_exit_cong fd_or_exit_cong close_pipes_cong)
qed

text \<open>
  Claim C4 fails on the code where no token was collected.  In
  \<^verbatim>\<open>cmd < in > > out\<close> the second \<^verbatim>\<open>>\<close> is read in mode \<open>OUTPUT\<close> with nothing
  collected since the first; slot 0 still holds \<^verbatim>\<open>in\<close>, so the test for
  \<^verbatim>\<open>NULL\<close> passes, no error is reported, and the input file is opened with
  \<open>O_TRUNC\<close>: it is empty before \<^verbatim>\<open>cmd\<close> reads it.  In \<^verbatim>\<open>cmd > a > > b\<close> the
  file \<^verbatim>\<open>a\<close> is opened a second time in the same way.
\<close>

theorem stale_slot_passes_for_a_file:
  "parse_input_and_exec ''cmd < in > > out'' COMMAND_SEPARATOR =
     Returned EXEC_SUCCESS []
       [Redirect_io OUTPUT None (Some ''in'') False,
        Exec_redir_bothio OUTPUT (Some ''cmd'' # replicate 10 None) (Some ''in'') (Some ''out'')] \<and>
   trace (run_line ''cmd < in > > out'' (boot\<lparr>files := [''in'' \<mapsto> ''data'']\<rparr>)) =
     [Ev_open Shell ''in'' {O_WRONLY, O_CREAT, O_TRUNC} 3,
      Ev_close Shell 3 (File ''in'' {O_WRONLY, O_CREAT, O_TRUNC}), Ev_fork 0,
      Ev_open (Child 0) ''in'' {O_RDONLY} 3,
      Ev_open (Child 0) ''out'' {O_WRONLY, O_CREAT, O_TRUNC} 4,
      Ev_dup2 (Child 0) (File ''in'' {O_RDONLY}) 0,
      Ev_dup2 (Child 0) (File ''out'' {O_WRONLY, O_CREAT, O_TRUNC}) 1,
      Ev_close (Child 0) 3 (File ''in'' {O_RDONLY}),
      Ev_close (Child 0) 4 (File ''out'' {O_WRONLY, O_CREAT, O_TRUNC}),
      Ev_execvp 0 (Some ''cmd'') (Some [''cmd'']) True, Ev_end 0, Ev_wait (Some 0)] \<and>
   files (run_line ''cmd < in > > out'' (boot\<lparr>files := [''in'' \<mapsto> ''data'']\<rparr>)) ''in'' = Some [] \<and>
   parse_input_and_exec ''cmd > a > > b'' COMMAND_SEPARATOR =
     Returned EXEC_SUCCESS []
       [Redirect_io OUTPUT None (Some ''a'') False, Redirect_io OUTPUT None (Some ''a'') False,
        Redirect_io OUTPUT (Some (Some ''cmd'' # replicate 10 None)) (Some ''b'') True]"
proof -
  have p: "parse_input_and_exec ''cmd < in > > out'' COMMAND_SEPARATOR =
     Returned 0 []
       [Redirect_io OUTPUT None (Some ''in'') False,
        Exec_redir_bothio OUTPUT (Some ''cmd'' # replicate 10 None) (Some ''in'') (Some ''out'')]"
    by code_simp
  have q: "parse_input_and_exec ''cmd > a > > b'' COMMAND_SEPARATOR =
     Returned 0 []
       [Redirect_io OUTPUT None (Some ''a'') False, Redirect_io OUTPUT None (Some ''a'') False,
        Redirect_io OUTPUT (Some (Some ''cmd'' # replicate 10 None)) (Some ''b'') True]"
    by code_simp
  show ?thesis
    unfolding run_line_def p q
    by (simp add: EXEC_SUCCESS_def) (simp add: kernel_defs upt16 insert_commute cong: or_exit_cong fd_or_exit_cong close_pipes_cong)
qed

text \<open>
  The first-stage branch of the \<^verbatim>\<open>|\<close> handler has no test for an empty command
  (the interior branch has one): \<^verbatim>\<open>| cmd\<close> is accepted, and the child forked for
  the first stage hands \<^verbatim>\<open>execvp\<close> a \<^verbatim>\<open>NULL\<close> program.
\<close>

lemma pipe_without_first_program:
  "parse_input_and_exec ''| cmd'' COMMAND_SEPARATOR =
     Returned EXEC_SUCCESS []
       [Input_pipe (replicate 11 None), Output_pipe (Some ''cmd'' # replicate 10 None)] \<and>
   forks (run_line ''| cmd'' boot) = 1 \<and> ub (run_line ''| cmd'' boot)"
proof -
  have p: "parse_input_and_exec ''| cmd'' COMMAND_SEPARATOR =
     Returned 0 []
       [Input_pipe (replicate 11 None), Output_pipe (Some ''cmd'' # replicate 10 None)]"
    by code_simp
  show ?thesis
    unfolding run_line_def p
    by (simp add: EXEC_SUCCESS_def) (simp add: kernel_defs upt16 insert_commute cong: or_exit_cong fd_or_exit_cong close_pipes_cong)
qed

subsection \<open>A missing operand behind the only operator\<close>











text \<open>
  Lines with further operators are outside this statement, and on some of them a launcher is
  called for the segment that is missing: in \<^verbatim>\<open>cmd < |\<close> the \<^verbatim>\<open>|\<close> handler passes a
  \<^verbatim>\<open>NULL\<close> input file to \<open>input_pipe_redirect\<close>, in \<^verbatim>\<open>a | |\<close> the second \<^verbatim>\<open>|\<close> finds slot 0
  still holding \<^verbatim>\<open>a\<close> and calls \<open>inter_pipe\<close> on an empty command.
\<close>

lemma launcher_called_for_a_missing_operand:
  "parse_input_and_exec ''cmd < |'' COMMAND_SEPARATOR =
     Returned EXEC_FAILURE [''No file for I/O redirection.\<newline>'']
       [Input_pipe_redirect (Some ''cmd'' # replicate 10 None) None] \<and>
   parse_input_and_exec ''a | |'' COMMAND_SEPARATOR =
     Returned EXEC_FAILURE [''No file for I/O redirection.\<newline>'']
       [Input_pipe (Some ''a'' # replicate 10 None), Inter_pipe (replicate 11 None)]"
  by (intro conjI; code_simp)

subsection \<open>Files opened against their role\<close>

text \<open>
  Claim C8 fails on the code, on lines the parser accepts.  The launchers map their mode to
  the flags the claim names (lemma \<open>open_flags_by_role\<close>), and a line \<^verbatim>\<open>cmd >> f\<close> run twice
  appends twice (lemma \<open>append_twice_example\<close>); but the \<^verbatim>\<open>>\<close> handler hands
  \<open>redirect_io\<close> whatever slot 0 holds, and the branches for the modes \<open>INPUT\<close>, \<open>OUTPUT\<close>
  and \<open>OUTPUT_APPEND\<close> reset \<open>cmd_index\<close> without clearing that slot.  In
  \<^verbatim>\<open>cmd < in > > out\<close> the input file \<^verbatim>\<open>in\<close> is first opened with \<open>O_WRONLY\<close>, \<open>O_CREAT\<close>,
  \<open>O_TRUNC\<close>, and \<^verbatim>\<open>cmd\<close> reads an empty file.  In \<^verbatim>\<open>cmd >> a > > b\<close> the file \<^verbatim>\<open>a\<close>,
  named behind \<^verbatim>\<open>>>\<close>, is opened for appending and then once more with \<open>O_TRUNC\<close>: what
  it held is lost, where appending keeps it.
\<close>

theorem file_opened_against_its_role:
  "parse_input_and_exec ''cmd < in > > out'' COMMAND_SEPARATOR =
     Returned EXEC_SUCCESS []
       [Redirect_io OUTPUT None (Some ''in'') False,
        Exec_redir_bothio OUTPUT (Some ''cmd'' # replicate 10 None) (Some ''in'') (Some ''out'')] \<and>
   opens (run_line ''cmd < in > > out'' (boot\<lparr>files := [''in'' \<mapsto> ''data'']\<rparr>)) =
     [Pair ''in'' {O_WRONLY, O_CREAT, O_TRUNC}, Pair ''in'' {O_RDONLY},
      Pair ''out'' {O_WRONLY, O_CREAT, O_TRUNC}] \<and>
   parse_input_and_exec ''cmd >> a > > b'' COMMAND_SEPARATOR =
     Returned EXEC_SUCCESS []
       [Redirect_io OUTPUT_APPEND None (Some ''a'') False, Redirect_io OUTPUT None (Some ''a'') False,
        Redirect_io OUTPUT (Some (Some ''cmd'' # replicate 10 None)) (Some ''b'') True] \<and>
   opens (run_line ''cmd >> a > > b'' (boot\<lparr>files := [''a'' \<mapsto> ''old'']\<rparr>)) =
     [Pair ''a'' {O_WRONLY, O_CREAT, O_APPEND}, Pair ''a'' {O_WRONLY, O_CREAT, O_TRUNC},
      Pair ''b'' {O_WRONLY, O_CREAT, O_TRUNC}] \<and>
   files (run_line ''cmd >> a > > b'' (boot\<lparr>files := [''a'' \<mapsto> ''old'']\<rparr>)) ''a'' = Some [] \<and>
   files (run_line ''cmd >> a > > b'' (boot\<lparr>files := [''a'' \<mapsto> ''old'']\<rparr>)) ''b'' = Some ''out''"
proof -
  have p: "parse_input_and_exec ''cmd < in > > out'' COMMAND_SEPARATOR =
     Returned 0 []
       [Redirect_io OUTPUT None (Some ''in'') False,
        Exec_redir_bothio OUTPUT (Some ''cmd'' # replicate 10 None) (Some ''in'') (Some ''out'')]"
    by code_simp
  have q: "parse_input_and_exec ''cmd >> a > > b'' COMMAND_SEPARATOR =
     Returned 0 []
       [Redirect_io OUTPUT_APPEND None (Some ''a'') False, Redirect_io OUTPUT None (Some ''a'') False,
        Redirect_io OUTPUT (Some (Some ''cmd'' # replicate 10 None)) (Some ''b'') True]"
    by code_simp
  show ?thesis
    unfolding run_line_def opens_def p q
    by (simp add: EXEC_SUCCESS_def) (simp add: kernel_defs upt16 insert_commute cong: or_exit_cong fd_or_exit_cong close_pipes_cong)
qed

end
